theory Spec2Isabelle
  imports Complex_Main
begin

section \<open>Z boson two-lepton reduction: the notebook's three event loops\<close>

text \<open>
  The notebook \<^verbatim>\<open>ZBoson-Main-Analysis.ipynb\<close> runs three loops (signal, background,
  data) over a chain of event rows. Each loop is embedded as a step function on an
  explicit record of the notebook variables that live across iterations, and the loop
  itself as a recursion over the list of rows.

  Numbers: Python integers are \<open>int\<close> (indices \<open>nat\<close>); Python floats are modelled
  as \<open>real\<close>, so rounding, infinities and NaN are outside this model. Every
  exception the loops can raise is a value of \<open>py_error\<close>.
\<close>

subsection \<open>Python errors and short-circuit evaluation\<close>

datatype py_error = ZeroDivisionError | IndexError | KeyError | NameError

definition bindE :: "py_error + 'a \<Rightarrow> ('a \<Rightarrow> py_error + 'b) \<Rightarrow> py_error + 'b" where
  "bindE m f = (case m of Inl err \<Rightarrow> Inl err | Inr x \<Rightarrow> f x)"

text \<open>Indexing a vector branch of the row: out of range raises IndexError.\<close>

definition vec_at :: "'a list \<Rightarrow> nat \<Rightarrow> py_error + 'a" where
  "vec_at xs j = (if j < length xs then Inr (xs ! j) else Inl IndexError)"

text \<open>Float division \<open>a / b\<close>: a zero divisor raises ZeroDivisionError.\<close>

definition py_div :: "real \<Rightarrow> real \<Rightarrow> py_error + real" where
  "py_div a b = (if b = 0 then Inl ZeroDivisionError else Inr (a / b))"

text \<open>
  \<open>a and b\<close>: the right operand is evaluated only when the left one is true, so an
  exception of the right operand shows only then.
\<close>

definition py_and :: "py_error + bool \<Rightarrow> py_error + bool \<Rightarrow> py_error + bool" where
  "py_and a b = (case a of Inl err \<Rightarrow> Inl err | Inr t \<Rightarrow> (if t then b else Inr False))"

text \<open>
  \<open>abs\<close> applied to a Python bool gives the int 1 or 0, and an int is true in a
  condition when it is not 0.
\<close>

definition abs_bool :: "bool \<Rightarrow> int" where
  "abs_bool b = \<bar>if b then 1 else 0\<bar>"

definition truthy :: "int \<Rightarrow> bool" where
  "truthy i = (i \<noteq> 0)"

subsection \<open>The event row and the notebook variables\<close>

record event =
  trigE :: bool
  trigM :: bool
  lep_n :: int
  jet_n :: int
  lep_pt :: "real list"
  lep_eta :: "real list"
  lep_phi :: "real list"
  lep_E :: "real list"
  lep_type :: "int list"
  lep_charge :: "int list"
  lep_ptcone30 :: "real list"
  lep_etcone20 :: "real list"
  lep_trackd0pvunbiased :: "real list"
  lep_tracksigd0pvunbiased :: "real list"
  lep_z0 :: "real list"
  mcWeight :: real
  scaleFactor_PILEUP :: real
  scaleFactor_ELE :: real
  scaleFactor_MUON :: real
  scaleFactor_LepTRIGGER :: real

text \<open>One entry of \<^verbatim>\<open>infofile.infos\<close> (the table itself is a parameter of the loops).\<close>

record info =
  xsec :: real
  sumw :: real
  red_eff :: real

text \<open>
  The variables a loop reads before it writes them in an iteration, and the four
  output lists. \<open>sample\<close> is unbound (\<open>None\<close>) until the attribution chain first
  assigns it. \<open>goodlep\<close>, \<open>theta\<close>, the three TLorentzVector objects, \<open>invmass\<close>,
  \<open>info\<close> and the weights are written before every read, so they are local values
  of the step functions.
\<close>

record loop_state =
  k :: int
  kf :: int
  index1 :: nat
  index2 :: nat
  sample :: "string option"
  invM :: "real list"
  leadpt :: "real list"
  subleadpt :: "real list"
  weights :: "real list"

definition lumi :: real where
  "lumi = 10"

subsection \<open>TLorentzVector\<close>

text \<open>
  Modelled from the spec: ROOT's TLorentzVector is a library class, not part of the
  notebook. The spec asks for "the standard pseudorapidity/azimuth parametrization",
  "invariant mass = magnitude of the summed four-momentum" and the "transverse
  momentum of each original (unsummed) four-momentum". The definitions below are
  ROOT's: SetPtEtaPhiE takes the absolute value of pt and stores
  (pt cos phi, pt sin phi, pt sinh eta, e); M is the signed square root of
  \<open>t\<^sup>2 - x\<^sup>2 - y\<^sup>2 - z\<^sup>2\<close>; Pt is \<open>sqrt (x\<^sup>2 + y\<^sup>2)\<close>.
  Over the reals Pt of a vector set from \<open>pt\<close> is exactly \<open>|pt|\<close>; ROOT's doubles round
  the products and the root, so two vectors set from the same \<open>pt\<close> at different \<open>phi\<close>
  can differ in Pt by a rounding step. Equalities between Pt values on a tie of \<open>lep_pt\<close> are statements of exact arithmetic.
\<close>

record lorentz =
  fX :: real
  fY :: real
  fZ :: real
  fE :: real

definition SetPtEtaPhiE :: "real \<Rightarrow> real \<Rightarrow> real \<Rightarrow> real \<Rightarrow> lorentz" where
  "SetPtEtaPhiE pt eta phi en =
     \<lparr>fX = \<bar>pt\<bar> * cos phi, fY = \<bar>pt\<bar> * sin phi, fZ = \<bar>pt\<bar> * sinh eta, fE = en\<rparr>"

definition lorentz_add :: "lorentz \<Rightarrow> lorentz \<Rightarrow> lorentz" where
  "lorentz_add a b = \<lparr>fX = fX a + fX b, fY = fY a + fY b, fZ = fZ a + fZ b, fE = fE a + fE b\<rparr>"

definition Mag2 :: "lorentz \<Rightarrow> real" where
  "Mag2 v = fE v * fE v - (fX v * fX v + fY v * fY v + fZ v * fZ v)"

definition M :: "lorentz \<Rightarrow> real" where
  "M v = (if Mag2 v < 0 then - sqrt (- Mag2 v) else sqrt (Mag2 v))"

definition Pt :: "lorentz \<Rightarrow> real" where
  "Pt v = sqrt (fX v * fX v + fY v * fY v)"

subsection \<open>Signal path: the per-lepton quality loop (cell 4, the \<open>for j\<close> loop)\<close>

text \<open>
  \<open>(lep_pt[j] > 25000.) and (lep_ptcone30[j]/lep_pt[j] < 0.15) and
  (lep_etcone20[j]/lep_pt[j] < 0.15)\<close>
\<close>

definition isolation_cut :: "event \<Rightarrow> nat \<Rightarrow> py_error + bool" where
  "isolation_cut ev j =
     py_and (bindE (vec_at (lep_pt ev) j) (\<lambda>pt. Inr (pt > 25000)))
       (py_and
          (bindE (vec_at (lep_ptcone30 ev) j) (\<lambda>c.
             bindE (vec_at (lep_pt ev) j) (\<lambda>pt.
               bindE (py_div c pt) (\<lambda>r. Inr (r < 0.15)))))
          (bindE (vec_at (lep_etcone20 ev) j) (\<lambda>c.
             bindE (vec_at (lep_pt ev) j) (\<lambda>pt.
               bindE (py_div c pt) (\<lambda>r. Inr (r < 0.15))))))"

text \<open>
  \<open>lep_type[j]==11 and abs(lep_eta[j])<2.47 and (abs(lep_eta[j])<1.37 or
  abs(lep_eta[j])>1.52)\<close>; the three reads of \<open>lep_eta[j]\<close> succeed or fail
  together, so they are one read here.
\<close>

definition electron_cut :: "event \<Rightarrow> nat \<Rightarrow> py_error + bool" where
  "electron_cut ev j =
     py_and (bindE (vec_at (lep_type ev) j) (\<lambda>t. Inr (t = 11)))
       (bindE (vec_at (lep_eta ev) j) (\<lambda>eta.
          Inr (\<bar>eta\<bar> < 2.47 \<and> (\<bar>eta\<bar> < 1.37 \<or> \<bar>eta\<bar> > 1.52))))"

text \<open>The muon pseudorapidity condition as written: \<open>abs(lep_eta[j]<2.5)\<close>.\<close>

definition muon_eta_cond :: "real \<Rightarrow> bool" where
  "muon_eta_cond eta = truthy (abs_bool (eta < 2.5))"

text \<open>\<open>lep_type[j]==13 and abs(lep_eta[j]<2.5)\<close>\<close>

definition muon_cut :: "event \<Rightarrow> nat \<Rightarrow> py_error + bool" where
  "muon_cut ev j =
     py_and (bindE (vec_at (lep_type ev) j) (\<lambda>t. Inr (t = 13)))
       (bindE (vec_at (lep_eta ev) j) (\<lambda>eta. Inr (muon_eta_cond eta)))"

text \<open>\<open>theta = 2*np.arctan(np.exp(-lep_eta[j]))\<close>\<close>

definition theta_of :: "real \<Rightarrow> real" where
  "theta_of eta = 2 * arctan (exp (- eta))"

text \<open>
  \<open>lep_trackd0pvunbiased[j]/lep_tracksigd0pvunbiased[j] < thr and
  abs(lep_z0[j]*np.sin(theta)) < 0.5\<close>, with \<open>thr\<close> 5 for electrons and 3 for muons.
\<close>

definition track_cut :: "event \<Rightarrow> nat \<Rightarrow> real \<Rightarrow> real \<Rightarrow> py_error + bool" where
  "track_cut ev j thr theta =
     py_and
       (bindE (vec_at (lep_trackd0pvunbiased ev) j) (\<lambda>d0.
          bindE (vec_at (lep_tracksigd0pvunbiased ev) j) (\<lambda>sig.
            bindE (py_div d0 sig) (\<lambda>r. Inr (r < thr)))))
       (bindE (vec_at (lep_z0 ev) j) (\<lambda>z0. Inr (\<bar>z0 * sin theta\<bar> < 0.5)))"

text \<open>
  One branch of the loop body: the flavour condition, then theta, then the track
  condition. The result says whether the branch reached its \<open>goodlep+=1\<close>.
\<close>

definition good_branch :: "py_error + bool \<Rightarrow> event \<Rightarrow> nat \<Rightarrow> real \<Rightarrow> py_error + bool" where
  "good_branch flavour ev j thr =
     bindE flavour (\<lambda>f.
       if f then bindE (vec_at (lep_eta ev) j) (\<lambda>eta. track_cut ev j thr (theta_of eta))
       else Inr False)"

text \<open>
  The loop body on the triple (goodlep, index1, index2). The electron branch and the
  muon branch are two separate \<open>if\<close> statements, run one after the other.
\<close>

definition quality_body :: "event \<Rightarrow> nat \<Rightarrow> int \<times> nat \<times> nat \<Rightarrow> py_error + (int \<times> nat \<times> nat)" where
  "quality_body ev j acc =
     (case acc of (goodlep, i1, i2) \<Rightarrow>
        bindE (isolation_cut ev j) (\<lambda>iso.
          if iso then
            bindE (good_branch (electron_cut ev j) ev j 5) (\<lambda>el.
              case (if el then (goodlep + 1, j) else (goodlep, i1)) of (g1, i1') \<Rightarrow>
                bindE (good_branch (muon_cut ev j) ev j 3) (\<lambda>mu.
                  Inr (if mu then (g1 + 1, i1', j) else (g1, i1', i2))))
          else Inr (goodlep, i1, i2)))"

fun quality_loop :: "event \<Rightarrow> nat list \<Rightarrow> int \<times> nat \<times> nat \<Rightarrow> py_error + (int \<times> nat \<times> nat)" where
  "quality_loop ev [] acc = Inr acc"
| "quality_loop ev (j # js) acc = bindE (quality_body ev j acc) (quality_loop ev js)"

text \<open>
  The good-lepton predicate the loop is meant to count: the conjunction of the
  source's conditions on lepton \<open>j\<close>, read without exceptions.
\<close>

definition good_lepton :: "event \<Rightarrow> nat \<Rightarrow> bool" where
  "good_lepton ev j =
     (let pt = lep_pt ev ! j; eta = lep_eta ev ! j;
          d0sig = lep_trackd0pvunbiased ev ! j / lep_tracksigd0pvunbiased ev ! j;
          z0cut = (\<bar>lep_z0 ev ! j * sin (theta_of eta)\<bar> < 0.5)
      in pt > 25000 \<and> lep_ptcone30 ev ! j / pt < 0.15 \<and> lep_etcone20 ev ! j / pt < 0.15 \<and>
         ((lep_type ev ! j = 11 \<and> \<bar>eta\<bar> < 2.47 \<and> (\<bar>eta\<bar> < 1.37 \<or> \<bar>eta\<bar> > 1.52)
             \<and> d0sig < 5 \<and> z0cut)
          \<or> (lep_type ev ! j = 13 \<and> muon_eta_cond eta \<and> d0sig < 3 \<and> z0cut)))"

subsection \<open>Pair reconstruction (signal lines 178-188, background 372-381, data 554-563)\<close>

record kin =
  kin_pt :: real
  kin_eta :: real
  kin_phi :: real
  kin_E :: real

text \<open>
  The four reads \<open>lep_pt[i], lep_eta[i], lep_phi[i], lep_E[i]\<close> of one lepton. The
  source reads both \<open>lep_pt\<close> entries for the comparison before the rest; every
  failing read raises the same IndexError, so the order of the reads does not show.
\<close>

definition lep_kin :: "event \<Rightarrow> nat \<Rightarrow> py_error + kin" where
  "lep_kin ev i =
     bindE (vec_at (lep_pt ev) i) (\<lambda>pt.
       bindE (vec_at (lep_eta ev) i) (\<lambda>eta.
         bindE (vec_at (lep_phi ev) i) (\<lambda>phi.
           bindE (vec_at (lep_E ev) i) (\<lambda>en.
             Inr \<lparr>kin_pt = pt, kin_eta = eta, kin_phi = phi, kin_E = en\<rparr>))))"

definition set_lepton :: "kin \<Rightarrow> lorentz" where
  "set_lepton a = SetPtEtaPhiE (kin_pt a) (kin_eta a) (kin_phi a) (kin_E a)"

text \<open>
  \<open>if(lep_pt[index1] > lep_pt[index2])\<close>: index1 leads; \<open>else\<close> (ties included):
  index2 leads. The result is (leadlepton, subleadlepton).
\<close>

definition lead_sublead :: "kin \<Rightarrow> kin \<Rightarrow> lorentz \<times> lorentz" where
  "lead_sublead a b =
     (if kin_pt a > kin_pt b then (set_lepton a, set_lepton b)
      else (set_lepton b, set_lepton a))"

text \<open>\<open>lepton12 = leadlepton + subleadlepton; invmass = lepton12.M()/1000.\<close>\<close>

definition invmass_of :: "lorentz \<times> lorentz \<Rightarrow> real" where
  "invmass_of p = M (lorentz_add (fst p) (snd p)) / 1000"

text \<open>(invmass, ptlead, ptsub) of two leptons given as index1 and index2.\<close>

definition reconstruct :: "kin \<Rightarrow> kin \<Rightarrow> real \<times> real \<times> real" where
  "reconstruct a b =
     (let p = lead_sublead a b
      in (invmass_of p, Pt (fst p) / 1000, Pt (snd p) / 1000))"

subsection \<open>Sample attribution by cumulative row index\<close>

text \<open>\<open>k <= samples[i]\<close> and \<open>k > samples[i] and k <= samples[j]\<close>\<close>

definition upto_cond :: "int \<Rightarrow> int list \<Rightarrow> nat \<Rightarrow> py_error + bool" where
  "upto_cond n samples i = bindE (vec_at samples i) (\<lambda>b. Inr (n \<le> b))"

definition between_cond :: "int \<Rightarrow> int list \<Rightarrow> nat \<Rightarrow> nat \<Rightarrow> py_error + bool" where
  "between_cond n samples i j =
     py_and (bindE (vec_at samples i) (\<lambda>b. Inr (n > b))) (upto_cond n samples j)"

text \<open>\<open>if(cond): sample = name\<close>, on the current value of \<open>sample\<close>.\<close>

definition chain_if :: "py_error + bool \<Rightarrow> string \<Rightarrow> string option \<Rightarrow> py_error + string option" where
  "chain_if c name s = bindE c (\<lambda>t. Inr (if t then Some name else s))"

text \<open>Signal lines 195-200: three independent \<open>if\<close> statements over \<open>samplesSig\<close>.\<close>

definition signal_sample :: "int \<Rightarrow> int list \<Rightarrow> string option \<Rightarrow> py_error + string option" where
  "signal_sample n samplesSig s0 =
     bindE (chain_if (upto_cond n samplesSig 0) ''Zee'' s0) (\<lambda>s.
     bindE (chain_if (between_cond n samplesSig 0 1) ''Zmumu'' s) (\<lambda>s.
     chain_if (between_cond n samplesSig 1 2) ''Ztautau'' s))"

text \<open>Background lines 385-408: twelve independent \<open>if\<close> statements over \<open>samplesBck\<close>.\<close>

definition background_sample :: "int \<Rightarrow> int list \<Rightarrow> string option \<Rightarrow> py_error + string option" where
  "background_sample n samplesBck s0 =
     bindE (chain_if (upto_cond n samplesBck 0) ''ZqqZll'' s0) (\<lambda>s.
     bindE (chain_if (between_cond n samplesBck 0 1) ''WqqZll'' s) (\<lambda>s.
     bindE (chain_if (between_cond n samplesBck 1 2) ''WpqqWmlv'' s) (\<lambda>s.
     bindE (chain_if (between_cond n samplesBck 2 3) ''WplvWmqq'' s) (\<lambda>s.
     bindE (chain_if (between_cond n samplesBck 3 4) ''WlvZqq'' s) (\<lambda>s.
     bindE (chain_if (between_cond n samplesBck 4 5) ''llll'' s) (\<lambda>s.
     bindE (chain_if (between_cond n samplesBck 5 6) ''lllv'' s) (\<lambda>s.
     bindE (chain_if (between_cond n samplesBck 6 7) ''llvv'' s) (\<lambda>s.
     bindE (chain_if (between_cond n samplesBck 7 8) ''lvvv'' s) (\<lambda>s.
     bindE (chain_if (between_cond n samplesBck 8 9) ''single_top_tchan'' s) (\<lambda>s.
     bindE (chain_if (between_cond n samplesBck 9 10) ''single_antitop_tchan'' s) (\<lambda>s.
     chain_if (between_cond n samplesBck 10 11) ''Wplusenu'' s)))))))))))"

definition signal_names :: "string list" where
  "signal_names = [''Zee'', ''Zmumu'', ''Ztautau'']"

definition background_names :: "string list" where
  "background_names =
     [''ZqqZll'', ''WqqZll'', ''WpqqWmlv'', ''WplvWmqq'', ''WlvZqq'', ''llll'', ''lllv'',
      ''llvv'', ''lvvv'', ''single_top_tchan'', ''single_antitop_tchan'', ''Wplusenu'']"

text \<open>
  The two chains have one shape: the first \<open>if\<close> tests \<open>k <= b\<close>, each later one
  \<open>k > previous and k <= b\<close>, and the last \<open>if\<close> that fires decides. This is that
  shape for any list of (boundary, name) pairs; \<open>prev\<close> is the boundary before.
\<close>

fun attribution_chain :: "int \<Rightarrow> int option \<Rightarrow> (int \<times> string) list \<Rightarrow> string option \<Rightarrow> string option" where
  "attribution_chain n prev [] s = s"
| "attribution_chain n prev ((b, name) # rest) s =
     attribution_chain n (Some b) rest
       (if (case prev of None \<Rightarrow> True | Some p \<Rightarrow> n > p) \<and> n \<le> b then Some name else s)"

text \<open>
  The spec's \<open>resolve\<close>, in its words: the name attached to the first boundary that is
  greater than or equal to the index.
\<close>

definition first_boundary :: "int \<Rightarrow> (int \<times> string) list \<Rightarrow> string option" where
  "first_boundary n bs = map_option snd (find (\<lambda>p. n \<le> fst p) bs)"

subsection \<open>Weights\<close>

text \<open>
  \<open>info = infofile.infos[sample]\<close>,
  \<open>xsec_weight = (lumi*1000*info["xsec"])/(info["sumw"]*info["red_eff"])\<close>,
  \<open>weight = xsec_weight*mcWeight*scaleFactor_PILEUP*scaleFactor_ELE*scaleFactor_MUON*scaleFactor_LepTRIGGER\<close>.
  An unbound \<open>sample\<close> raises NameError, an unknown one KeyError.
\<close>

definition mc_weight :: "(string \<rightharpoonup> info) \<Rightarrow> string option \<Rightarrow> event \<Rightarrow> py_error + real" where
  "mc_weight infos s ev =
     (case s of
        None \<Rightarrow> Inl NameError
      | Some name \<Rightarrow>
          (case infos name of
             None \<Rightarrow> Inl KeyError
           | Some entry \<Rightarrow>
               bindE (py_div (lumi * 1000 * xsec entry) (sumw entry * red_eff entry)) (\<lambda>xsec_weight.
                 Inr (xsec_weight * mcWeight ev * scaleFactor_PILEUP ev * scaleFactor_ELE ev
                        * scaleFactor_MUON ev * scaleFactor_LepTRIGGER ev))))"

text \<open>The three \<open>append\<close> calls for invmass, ptlead and ptsub.\<close>

definition append_kinematics :: "real \<Rightarrow> real \<Rightarrow> real \<Rightarrow> loop_state \<Rightarrow> loop_state" where
  "append_kinematics invmass ptlead ptsub st =
     st\<lparr>invM := invM st @ [invmass], leadpt := leadpt st @ [ptlead],
        subleadpt := subleadpt st @ [ptsub]\<rparr>"

text \<open>\<open>weights.append(weight); kf+=1\<close>\<close>

definition append_weight :: "real \<Rightarrow> loop_state \<Rightarrow> loop_state" where
  "append_weight w st = st\<lparr>weights := weights st @ [w], kf := kf st + 1\<rparr>"

text \<open>
  The tail of a kept simulated event: the three appends, the attribution chain on the
  running index \<open>k\<close>, the table lookup, the weight, its append and \<open>kf+=1\<close>.
\<close>

definition fill_mc ::
  "(int \<Rightarrow> int list \<Rightarrow> string option \<Rightarrow> py_error + string option) \<Rightarrow> (string \<rightharpoonup> info) \<Rightarrow> int list
     \<Rightarrow> event \<Rightarrow> real \<Rightarrow> real \<Rightarrow> real \<Rightarrow> loop_state \<Rightarrow> py_error + loop_state" where
  "fill_mc chain infos samples ev invmass ptlead ptsub st =
     (let st1 = append_kinematics invmass ptlead ptsub st
      in bindE (chain (k st1) samples (sample st1)) (\<lambda>smp.
           bindE (mc_weight infos smp ev) (\<lambda>w.
             Inr (append_weight w (st1\<lparr>sample := smp\<rparr>)))))"

subsection \<open>Signal step (cell 4, lines 152-205)\<close>

text \<open>
  \<open>lep_charge[index1]*lep_charge[index2] < 0 and lep_type[index1]==lep_type[index2]\<close>
\<close>

definition pair_cut :: "event \<Rightarrow> nat \<Rightarrow> nat \<Rightarrow> py_error + bool" where
  "pair_cut ev i1 i2 =
     py_and
       (bindE (vec_at (lep_charge ev) i1) (\<lambda>c1.
          bindE (vec_at (lep_charge ev) i2) (\<lambda>c2. Inr (c1 * c2 < 0))))
       (bindE (vec_at (lep_type ev) i1) (\<lambda>t1.
          bindE (vec_at (lep_type ev) i2) (\<lambda>t2. Inr (t1 = t2))))"

text \<open>Lines 178-205: ordering, mass window, appends, attribution, weight.\<close>

definition signal_fill :: "(string \<rightharpoonup> info) \<Rightarrow> int list \<Rightarrow> event \<Rightarrow> loop_state \<Rightarrow> py_error + loop_state" where
  "signal_fill infos samplesSig ev st =
     bindE (lep_kin ev (index1 st)) (\<lambda>a.
       bindE (lep_kin ev (index2 st)) (\<lambda>b.
         (let p = lead_sublead a b; invmass = invmass_of p
          in if \<bar>invmass - 91.18\<bar> < 25
             then fill_mc signal_sample infos samplesSig ev invmass
                    (Pt (fst p) / 1000) (Pt (snd p) / 1000) st
             else Inr st)))"

text \<open>Lines 175-177: \<open>goodlep==2\<close>, \<open>jet_n==0\<close>, the charge and flavour condition.\<close>

definition signal_select :: "(string \<rightharpoonup> info) \<Rightarrow> int list \<Rightarrow> event \<Rightarrow> int \<Rightarrow> loop_state \<Rightarrow> py_error + loop_state" where
  "signal_select infos samplesSig ev goodlep st =
     (if goodlep = 2 then
        if jet_n ev = 0 then
          bindE (pair_cut ev (index1 st) (index2 st)) (\<lambda>pc.
            if pc then signal_fill infos samplesSig ev st else Inr st)
        else Inr st
      else Inr st)"

definition signal_step :: "(string \<rightharpoonup> info) \<Rightarrow> int list \<Rightarrow> event \<Rightarrow> loop_state \<Rightarrow> py_error + loop_state" where
  "signal_step infos samplesSig ev st =
     (let st1 = st\<lparr>k := k st + 1\<rparr>
      in if trigE ev \<or> trigM ev then
           if lep_n ev = 2 then
             bindE (quality_loop ev [0..<nat (lep_n ev)] (0, index1 st1, index2 st1)) (\<lambda>acc.
               case acc of (goodlep, i1, i2) \<Rightarrow>
                 signal_select infos samplesSig ev goodlep (st1\<lparr>index1 := i1, index2 := i2\<rparr>))
           else Inr st1
         else Inr st1)"

subsection \<open>Background step (lines 368-413) and data step (lines 550-568)\<close>

definition background_step :: "(string \<rightharpoonup> info) \<Rightarrow> int list \<Rightarrow> event \<Rightarrow> loop_state \<Rightarrow> py_error + loop_state" where
  "background_step infos samplesBck ev st =
     (let st1 = st\<lparr>k := k st + 1\<rparr>
      in if trigE ev \<or> trigM ev then
           if lep_n ev = 2 then
             bindE (lep_kin ev (index1 st1)) (\<lambda>a.
               bindE (lep_kin ev (index2 st1)) (\<lambda>b.
                 case reconstruct a b of (invmass, ptlead, ptsub) \<Rightarrow>
                   fill_mc background_sample infos samplesBck ev invmass ptlead ptsub st1))
           else Inr st1
         else Inr st1)"

definition data_step :: "event \<Rightarrow> loop_state \<Rightarrow> py_error + loop_state" where
  "data_step ev st =
     (let st1 = st\<lparr>k := k st + 1\<rparr>
      in if trigE ev \<or> trigM ev then
           if lep_n ev = 2 then
             bindE (lep_kin ev (index1 st1)) (\<lambda>a.
               bindE (lep_kin ev (index2 st1)) (\<lambda>b.
                 case reconstruct a b of (invmass, ptlead, ptsub) \<Rightarrow>
                   Inr (append_weight 1 (append_kinematics invmass ptlead ptsub st1))))
           else Inr st1
         else Inr st1)"

subsection \<open>The driver loops and the flush\<close>

text \<open>The variables as each cell initialises them before its loop.\<close>

definition signal_init :: loop_state where
  "signal_init = \<lparr>k = 0, kf = 0, index1 = 0, index2 = 0, sample = None,
                  invM = [], leadpt = [], subleadpt = [], weights = []\<rparr>"

definition fixed_init :: loop_state where
  "fixed_init = \<lparr>k = 0, kf = 0, index1 = 0, index2 = 1, sample = None,
                 invM = [], leadpt = [], subleadpt = [], weights = []\<rparr>"

text \<open>\<open>for event in tree\<close>: an exception in an iteration ends the run.\<close>

fun run_loop :: "(event \<Rightarrow> loop_state \<Rightarrow> py_error + loop_state) \<Rightarrow> event list \<Rightarrow> loop_state \<Rightarrow> py_error + loop_state" where
  "run_loop step [] st = Inr st"
| "run_loop step (ev # evs) st = bindE (step ev st) (run_loop step evs)"

text \<open>
  The output tree is the list of batches it has been extended with; \<open>extend\<close> adds
  one batch of the four columns.
\<close>

record batch =
  mll :: "real list"
  lead :: "real list"
  sublead :: "real list"
  weight :: "real list"

definition extend :: "loop_state \<Rightarrow> batch list \<Rightarrow> batch list" where
  "extend st tree =
     tree @ [\<lparr>mll = invM st, lead = leadpt st, sublead = subleadpt st, weight = weights st\<rparr>]"

text \<open>
  A whole cell: the loop from the initial variables, then one \<open>extend\<close> on the tree
  \<open>newtree\<close> created empty. The result is the final variables and the tree.
\<close>

definition pipeline :: "(event \<Rightarrow> loop_state \<Rightarrow> py_error + loop_state) \<Rightarrow> loop_state \<Rightarrow> event list \<Rightarrow> py_error + (loop_state \<times> batch list)" where
  "pipeline step init evs = bindE (run_loop step evs init) (\<lambda>st. Inr (st, extend st []))"

text \<open>The three cells of the notebook; the data cell uses neither table nor boundaries.\<close>

datatype cell = Signal | Background | Data

fun cell_step :: "cell \<Rightarrow> (string \<rightharpoonup> info) \<Rightarrow> int list \<Rightarrow> event \<Rightarrow> loop_state \<Rightarrow> py_error + loop_state" where
  "cell_step Signal infos samples = signal_step infos samples"
| "cell_step Background infos samples = background_step infos samples"
| "cell_step Data infos samples = data_step"

fun cell_init :: "cell \<Rightarrow> loop_state" where
  "cell_init Signal = signal_init"
| "cell_init Background = fixed_init"
| "cell_init Data = fixed_init"

definition run_cell :: "cell \<Rightarrow> (string \<rightharpoonup> info) \<Rightarrow> int list \<Rightarrow> event list \<Rightarrow> py_error + (loop_state \<times> batch list)" where
  "run_cell c infos samples evs = pipeline (cell_step c infos samples) (cell_init c) evs"

subsection \<open>Properties of the variables stated by the claims\<close>

text \<open>The four output lists have the length \<open>kf\<close>.\<close>

definition columns_agree :: "loop_state \<Rightarrow> bool" where
  "columns_agree st \<longleftrightarrow>
     int (length (invM st)) = kf st \<and> int (length (leadpt st)) = kf st \<and>
     int (length (subleadpt st)) = kf st \<and> int (length (weights st)) = kf st"

text \<open>An iteration that left \<open>kf\<close> and the four lists as they were.\<close>

definition unchanged_columns :: "loop_state \<Rightarrow> loop_state \<Rightarrow> bool" where
  "unchanged_columns st st' \<longleftrightarrow>
     kf st' = kf st \<and> invM st' = invM st \<and> leadpt st' = leadpt st \<and>
     subleadpt st' = subleadpt st \<and> weights st' = weights st"

text \<open>An iteration that added one to \<open>kf\<close> and one entry at the end of each list.\<close>

definition appended_one :: "loop_state \<Rightarrow> loop_state \<Rightarrow> bool" where
  "appended_one st st' \<longleftrightarrow>
     kf st' = kf st + 1 \<and> invM st' = invM st @ [last (invM st')] \<and>
     leadpt st' = leadpt st @ [last (leadpt st')] \<and>
     subleadpt st' = subleadpt st @ [last (subleadpt st')] \<and>
     weights st' = weights st @ [last (weights st')]"

text \<open>Every lepton vector the quality loop reads has at least \<open>n\<close> entries.\<close>

definition arrays_cover :: "event \<Rightarrow> nat \<Rightarrow> bool" where
  "arrays_cover ev n \<longleftrightarrow>
     n \<le> length (lep_pt ev) \<and> n \<le> length (lep_eta ev) \<and> n \<le> length (lep_type ev) \<and>
     n \<le> length (lep_ptcone30 ev) \<and> n \<le> length (lep_etcone20 ev) \<and>
     n \<le> length (lep_trackd0pvunbiased ev) \<and> n \<le> length (lep_tracksigd0pvunbiased ev) \<and>
     n \<le> length (lep_z0 ev)"


text \<open>The number of rows of a run whose iteration counted the row as kept.\<close>

fun kept_count :: "(event \<Rightarrow> loop_state \<Rightarrow> py_error + loop_state) \<Rightarrow> event list \<Rightarrow> loop_state \<Rightarrow> nat" where
  "kept_count step [] st = 0"
| "kept_count step (ev # evs) st =
     (case step ev st of
        Inl err \<Rightarrow> 0
      | Inr st' \<Rightarrow> (if kf st' = kf st + 1 then 1 else 0) + kept_count step evs st')"

subsection \<open>Concrete rows used in the examples\<close>

text \<open>
  A row with two isolated, opposite-charge muons, no jets, and a pair mass of 80
  (both leptons along \<open>phi = 0\<close>, \<open>eta = 0\<close>).
\<close>

definition ev_mumu :: event where
  "ev_mumu = \<lparr>trigE = False, trigM = True, lep_n = 2, jet_n = 0,
     lep_pt = [32000, 28000], lep_eta = [0, 0], lep_phi = [0, 0], lep_E = [50000, 50000],
     lep_type = [13, 13], lep_charge = [1, -1], lep_ptcone30 = [0, 0], lep_etcone20 = [0, 0],
     lep_trackd0pvunbiased = [0, 0], lep_tracksigd0pvunbiased = [1, 1], lep_z0 = [0, 0],
     mcWeight = 1, scaleFactor_PILEUP = 1, scaleFactor_ELE = 1, scaleFactor_MUON = 1,
     scaleFactor_LepTRIGGER = 1\<rparr>"

text \<open>A row whose only good lepton is an electron in slot 1.\<close>

definition ev_ele :: event where
  "ev_ele = ev_mumu\<lparr>trigE := True, lep_type := [11, 11], lep_pt := [10000, 30000]\<rparr>"

text \<open>The muon row with no trigger fired.\<close>

definition ev_notrig :: event where
  "ev_notrig = ev_mumu\<lparr>trigM := False\<rparr>"

text \<open>The muon row with the first muon at \<open>eta = 3\<close>, and with the first muon at \<open>pt = 0\<close>.\<close>

definition ev_eta3 :: event where
  "ev_eta3 = ev_mumu\<lparr>lep_eta := [3, 0]\<rparr>"

definition ev_pt0 :: event where
  "ev_pt0 = ev_mumu\<lparr>lep_pt := [0, 28000]\<rparr>"

text \<open>The muon row with a lepton count of 3.\<close>

definition ev_three :: event where
  "ev_three = ev_mumu\<lparr>lep_n := 3\<rparr>"


definition infos0 :: "string \<rightharpoonup> info" where
  "infos0 = [''Zee'' \<mapsto> \<lparr>xsec = 2, sumw = 4, red_eff = 1\<rparr>,
             ''Zmumu'' \<mapsto> \<lparr>xsec = 3, sumw = 5, red_eff = 1\<rparr>,
             ''Ztautau'' \<mapsto> \<lparr>xsec = 1, sumw = 1, red_eff = 1\<rparr>]"

definition samplesSig0 :: "int list" where
  "samplesSig0 = [100, 250, 400]"

text \<open>The boundaries of the spec's example.\<close>

definition boundaries0 :: "(int \<times> string) list" where
  "boundaries0 = [(100, ''S1''), (250, ''S2''), (400, ''S3'')]"

text \<open>The variables after the muon row was kept as the second row of a signal run.\<close>

definition st_kept :: loop_state where
  "st_kept = \<lparr>k = 2, kf = 1, index1 = 0, index2 = 1, sample = Some ''Zee'',
              invM = [80], leadpt = [32], subleadpt = [28], weights = [5000]\<rparr>"





section \<open>Basic facts\<close>

lemma bindE_simps [simp]: "bindE (Inl err) f = Inl err" "bindE (Inr x) f = f x"
  by (simp_all add: bindE_def)

lemma py_and_simps [simp]:
  "py_and (Inl err) b = Inl err" "py_and (Inr True) b = b" "py_and (Inr False) b = Inr False"
  by (simp_all add: py_and_def)

lemma vec_at_in [simp]: "j < length xs \<Longrightarrow> vec_at xs j = Inr (xs ! j)"
  by (simp add: vec_at_def)

lemma vec_at_out [simp]: "\<not> j < length xs \<Longrightarrow> vec_at xs j = Inl IndexError"
  by (simp add: vec_at_def)

lemma vec_at_Inr: "vec_at xs j = Inr v \<longleftrightarrow> j < length xs \<and> v = xs ! j"
  by (auto simp: vec_at_def)

lemma upt_two: "[0..<2] = [0, Suc 0]"
  by (simp add: upt_rec)

subsection \<open>The muon pseudorapidity condition\<close>

text \<open>
  \<open>abs(eta < 2.5)\<close> is 1 when \<open>eta < 2.5\<close> and 0 otherwise, so as a condition it is
  the signed comparison; the absolute value has no effect.
\<close>

lemma muon_eta_cond_iff: "muon_eta_cond eta \<longleftrightarrow> eta < 2.5"
  by (simp add: muon_eta_cond_def truthy_def abs_bool_def)

subsection \<open>The isolation condition\<close>

lemma isolation_cut_no_zero_division: "isolation_cut ev j \<noteq> Inl ZeroDivisionError"
  by (cases "j < length (lep_pt ev)"; cases "j < length (lep_ptcone30 ev)";
      cases "j < length (lep_etcone20 ev)")
     (auto simp: isolation_cut_def py_div_def py_and_def bindE_def split: sum.splits if_splits)

lemma isolation_cut_low_pt:
  "vec_at (lep_pt ev) j = Inr p \<Longrightarrow> p \<le> 25000 \<Longrightarrow> isolation_cut ev j = Inr False"
  by (simp add: isolation_cut_def)

subsection \<open>Four-vectors\<close>

lemma Pt_SetPtEtaPhiE: "Pt (SetPtEtaPhiE pt eta phi en) = \<bar>pt\<bar>"
proof -
  have "\<bar>pt\<bar> * cos phi * (\<bar>pt\<bar> * cos phi) + \<bar>pt\<bar> * sin phi * (\<bar>pt\<bar> * sin phi)
      = (\<bar>pt\<bar> * \<bar>pt\<bar>) * (cos phi * cos phi + sin phi * sin phi)"
    by algebra
  also have "\<dots> = \<bar>pt\<bar> * \<bar>pt\<bar>"
    by (simp only: sin_cos_squared_add3 mult_1_right)
  finally have "Pt (SetPtEtaPhiE pt eta phi en) = sqrt (\<bar>pt\<bar> * \<bar>pt\<bar>)"
    by (simp only: Pt_def SetPtEtaPhiE_def lorentz.simps)
  then show ?thesis
    by (simp only: real_sqrt_abs2 abs_abs)
qed

lemma Pt_set_lepton: "Pt (set_lepton a) = \<bar>kin_pt a\<bar>"
  by (simp add: set_lepton_def Pt_SetPtEtaPhiE)

lemma lorentz_add_commute: "lorentz_add a b = lorentz_add b a"
  by (simp add: lorentz_add_def add.commute)

lemma invmass_of_swap: "invmass_of (lead_sublead a b) = invmass_of (lead_sublead b a)"
  by (auto simp: lead_sublead_def invmass_of_def lorentz_add_commute)

lemma reconstruct_pts:
  "snd (reconstruct a b) =
     (\<bar>max (kin_pt a) (kin_pt b)\<bar> / 1000, \<bar>min (kin_pt a) (kin_pt b)\<bar> / 1000)"
  by (auto simp: reconstruct_def lead_sublead_def Let_def Pt_set_lepton max_def min_def)

subsection \<open>Evaluating the example rows\<close>

lemma ev_gate:
  "trigE ev_mumu \<or> trigM ev_mumu" "lep_n ev_mumu = 2" "jet_n ev_mumu = 0"
  "trigE ev_ele \<or> trigM ev_ele" "lep_n ev_ele = 2"
  "\<not> (trigE ev_notrig \<or> trigM ev_notrig)"
  "trigE ev_pt0 \<or> trigM ev_pt0" "lep_n ev_pt0 = 2"
  by (simp_all add: ev_mumu_def ev_ele_def ev_notrig_def ev_pt0_def)

lemmas quality_defs =
  quality_body_def isolation_cut_def good_branch_def electron_cut_def muon_cut_def
  muon_eta_cond_iff track_cut_def py_div_def

lemma ql_mumu: "quality_loop ev_mumu [0, Suc 0] (0, i1, i2) = Inr (2, i1, Suc 0)"
  by (simp add: ev_mumu_def quality_defs)

lemma ql_ele: "quality_loop ev_ele [0, Suc 0] (0, i1, i2) = Inr (1, Suc 0, i2)"
  by (simp add: ev_ele_def ev_mumu_def quality_defs)

lemma ql_pt0: "quality_loop ev_pt0 [0, Suc 0] (0, i1, i2) = Inr (1, i1, Suc 0)"
  by (simp add: ev_pt0_def ev_mumu_def quality_defs)

lemma signal_step_unfold:
  "trigE ev \<or> trigM ev \<Longrightarrow> lep_n ev = 2 \<Longrightarrow>
   signal_step infos samplesSig ev st =
     bindE (quality_loop ev [0, Suc 0] (0, index1 st, index2 st)) (\<lambda>acc.
       case acc of (goodlep, i1, i2) \<Rightarrow>
         signal_select infos samplesSig ev goodlep
           (st\<lparr>k := k st + 1, index1 := i1, index2 := i2\<rparr>))"
  by (simp add: signal_step_def upt_two)

subsection \<open>Results of the exception-passing combinators\<close>

lemma bindE_Inr: "bindE m f = Inr y \<longleftrightarrow> (\<exists>x. m = Inr x \<and> f x = Inr y)"
  by (cases m) simp_all

lemma py_and_Inr: "py_and a b = Inr t \<longleftrightarrow> (a = Inr False \<and> \<not> t) \<or> (a = Inr True \<and> b = Inr t)"
  by (cases a) (auto simp: py_and_def)

lemma py_and_Inr_Inr: "py_and (Inr a) (Inr b) = Inr (a \<and> b)"
  by (simp add: py_and_def)


subsection \<open>The attribution chains\<close>

lemma upto_cond_in: "i < length samples \<Longrightarrow> upto_cond n samples i = Inr (n \<le> samples ! i)"
  by (simp add: upto_cond_def)

lemma between_cond_in:
  "i < length samples \<Longrightarrow> j < length samples \<Longrightarrow>
   between_cond n samples i j = Inr (samples ! i < n \<and> n \<le> samples ! j)"
  by (simp add: between_cond_def upto_cond_def py_and_Inr_Inr)

lemma chain_if_Inr: "chain_if (Inr c) name s = Inr (if c then Some name else s)"
  by (simp add: chain_if_def)

lemma attribution_chain_past:
  "sorted (p # map fst bs) \<Longrightarrow> n \<le> p \<Longrightarrow> attribution_chain n (Some p) bs s = s"
proof (induction bs arbitrary: p s)
  case Nil
  then show ?case by simp
next
  case (Cons x bs)
  obtain b name where x: "x = (b, name)" by (cases x)
  from Cons.prems have "sorted (b # map fst bs)" "n \<le> b"
    by (auto simp: x)
  with Cons.IH [of b s] Cons.prems show ?case
    by (simp add: x)
qed

lemma attribution_chain_find:
  "sorted (map fst bs) \<Longrightarrow> (case prev of None \<Rightarrow> True | Some p \<Rightarrow> p < n) \<Longrightarrow>
   attribution_chain n prev bs s = (case first_boundary n bs of None \<Rightarrow> s | Some name \<Rightarrow> Some name)"
proof (induction bs arbitrary: prev s)
  case Nil
  then show ?case by (simp add: first_boundary_def)
next
  case (Cons x bs)
  obtain b name where x: "x = (b, name)" by (cases x)
  show ?case
  proof (cases "n \<le> b")
    case True
    from Cons.prems(1) have "sorted (b # map fst bs)" by (simp add: x)
    from attribution_chain_past [OF this True] Cons.prems(2) True show ?thesis
      by (simp add: x first_boundary_def)
  next
    case False
    from Cons.prems(1) have "sorted (map fst bs)" by (simp add: x)
    from Cons.IH [OF this, of "Some b" s] False show ?thesis
      by (simp add: x first_boundary_def)
  qed
qed

lemma first_boundary_Some:
  assumes "bs \<noteq> []" "n \<le> fst (last bs)"
  shows "first_boundary n bs \<noteq> None"
proof -
  from assms have "last bs \<in> set bs \<and> n \<le> fst (last bs)"
    by simp
  then have "\<exists>p. p \<in> set bs \<and> n \<le> fst p" ..
  then show ?thesis
    by (simp add: first_boundary_def find_None_iff)
qed

lemma signal_sample_chain:
  assumes "length samplesSig = 3"
  shows "signal_sample n samplesSig s = Inr (attribution_chain n None (zip samplesSig signal_names) s)"
proof -
  from assms obtain t1 t2 t3 where "samplesSig = [t1, t2, t3]"
    by (auto simp: numeral_eq_Suc length_Suc_conv)
  then show ?thesis
    by (simp add: signal_sample_def signal_names_def upto_cond_in between_cond_in chain_if_Inr
        split del: if_split)
qed

lemma background_sample_chain:
  assumes "length samplesBck = 12"
  shows "background_sample n samplesBck s = Inr (attribution_chain n None (zip samplesBck background_names) s)"
proof -
  from assms obtain b1 b2 b3 b4 b5 b6 b7 b8 b9 b10 b11 b12
    where "samplesBck = [b1, b2, b3, b4, b5, b6, b7, b8, b9, b10, b11, b12]"
    by (auto simp: numeral_eq_Suc length_Suc_conv)
  then show ?thesis
    by (simp add: background_sample_def background_names_def upto_cond_in between_cond_in
        chain_if_Inr split del: if_split)
qed

lemma boundaries0_sorted: "sorted_wrt (<) (map fst boundaries0)" "boundaries0 \<noteq> []"
  by (simp_all add: boundaries0_def)


subsection \<open>Weights and the tail of a kept row\<close>

lemma mc_weight_Inr:
  "mc_weight infos smp ev = Inr w \<longleftrightarrow>
     (\<exists>name entry. smp = Some name \<and> infos name = Some entry \<and> sumw entry * red_eff entry \<noteq> 0
        \<and> w = 10 * 1000 * xsec entry / (sumw entry * red_eff entry) * mcWeight ev
              * scaleFactor_PILEUP ev * scaleFactor_ELE ev * scaleFactor_MUON ev
              * scaleFactor_LepTRIGGER ev)"
  by (auto simp: mc_weight_def py_div_def lumi_def split: option.splits)

lemma fill_mc_Inr:
  assumes "fill_mc chain infos samples ev m l s st = Inr st'"
  shows "\<exists>smp w. chain (k st) samples (sample st) = Inr smp \<and> mc_weight infos smp ev = Inr w
     \<and> st' = st\<lparr>kf := kf st + 1, sample := smp, invM := invM st @ [m], leadpt := leadpt st @ [l],
                subleadpt := subleadpt st @ [s], weights := weights st @ [w]\<rparr>"
  using assms
  by (auto simp: fill_mc_def Let_def bindE_Inr append_kinematics_def append_weight_def)

lemma signal_fill_Inr:
  assumes "signal_fill infos samplesSig ev st = Inr st'"
  shows "st' = st \<or>
    (\<exists>a b smp w. lep_kin ev (index1 st) = Inr a \<and> lep_kin ev (index2 st) = Inr b
       \<and> \<bar>invmass_of (lead_sublead a b) - 91.18\<bar> < 25
       \<and> signal_sample (k st) samplesSig (sample st) = Inr smp \<and> mc_weight infos smp ev = Inr w
       \<and> st' = st\<lparr>kf := kf st + 1, sample := smp,
                   invM := invM st @ [invmass_of (lead_sublead a b)],
                   leadpt := leadpt st @ [Pt (fst (lead_sublead a b)) / 1000],
                   subleadpt := subleadpt st @ [Pt (snd (lead_sublead a b)) / 1000],
                   weights := weights st @ [w]\<rparr>)"
  using assms
  by (auto simp: signal_fill_def Let_def bindE_Inr split: if_splits dest!: fill_mc_Inr)

lemma signal_select_Inr:
  assumes "signal_select infos samplesSig ev g st = Inr st'"
  shows "st' = st \<or>
    (g = 2 \<and> jet_n ev = 0 \<and> pair_cut ev (index1 st) (index2 st) = Inr True \<and>
     (\<exists>a b smp w. lep_kin ev (index1 st) = Inr a \<and> lep_kin ev (index2 st) = Inr b
       \<and> \<bar>invmass_of (lead_sublead a b) - 91.18\<bar> < 25
       \<and> signal_sample (k st) samplesSig (sample st) = Inr smp \<and> mc_weight infos smp ev = Inr w
       \<and> st' = st\<lparr>kf := kf st + 1, sample := smp,
                   invM := invM st @ [invmass_of (lead_sublead a b)],
                   leadpt := leadpt st @ [Pt (fst (lead_sublead a b)) / 1000],
                   subleadpt := subleadpt st @ [Pt (snd (lead_sublead a b)) / 1000],
                   weights := weights st @ [w]\<rparr>))"
  using assms
  by (auto simp: signal_select_def bindE_Inr split: if_splits dest!: signal_fill_Inr)

lemma reconstruct_components:
  "reconstruct a b = (invmass_of (lead_sublead a b), Pt (fst (lead_sublead a b)) / 1000,
                      Pt (snd (lead_sublead a b)) / 1000)"
  by (simp add: reconstruct_def Let_def)


subsection \<open>The quality loop counts good leptons\<close>

lemma isolation_cut_Inr:
  "isolation_cut ev j = Inr b \<Longrightarrow>
   b = (lep_pt ev ! j > 25000 \<and> lep_ptcone30 ev ! j / lep_pt ev ! j < 0.15
        \<and> lep_etcone20 ev ! j / lep_pt ev ! j < 0.15)"
  by (auto simp: isolation_cut_def py_and_Inr bindE_Inr vec_at_Inr py_div_def split: if_splits)

lemma track_cut_Inr:
  "track_cut ev j thr theta = Inr b \<Longrightarrow>
   b = (lep_trackd0pvunbiased ev ! j / lep_tracksigd0pvunbiased ev ! j < thr
        \<and> \<bar>lep_z0 ev ! j * sin theta\<bar> < 0.5)"
  by (auto simp: track_cut_def py_and_Inr bindE_Inr vec_at_Inr py_div_def split: if_splits)

lemma electron_branch_Inr:
  "good_branch (electron_cut ev j) ev j 5 = Inr b \<Longrightarrow>
   b = (lep_type ev ! j = 11 \<and> \<bar>lep_eta ev ! j\<bar> < 2.47
        \<and> (\<bar>lep_eta ev ! j\<bar> < 1.37 \<or> \<bar>lep_eta ev ! j\<bar> > 1.52)
        \<and> lep_trackd0pvunbiased ev ! j / lep_tracksigd0pvunbiased ev ! j < 5
        \<and> \<bar>lep_z0 ev ! j * sin (theta_of (lep_eta ev ! j))\<bar> < 0.5)"
  by (auto simp: good_branch_def electron_cut_def py_and_Inr bindE_Inr vec_at_Inr
      split: if_splits dest!: track_cut_Inr)

lemma muon_branch_Inr:
  "good_branch (muon_cut ev j) ev j 3 = Inr b \<Longrightarrow>
   b = (lep_type ev ! j = 13 \<and> muon_eta_cond (lep_eta ev ! j)
        \<and> lep_trackd0pvunbiased ev ! j / lep_tracksigd0pvunbiased ev ! j < 3
        \<and> \<bar>lep_z0 ev ! j * sin (theta_of (lep_eta ev ! j))\<bar> < 0.5)"
  by (auto simp: good_branch_def muon_cut_def py_and_Inr bindE_Inr vec_at_Inr
      split: if_splits dest!: track_cut_Inr)

lemma branches_exclusive:
  "good_branch (electron_cut ev j) ev j 5 = Inr el \<Longrightarrow>
   good_branch (muon_cut ev j) ev j 3 = Inr mu \<Longrightarrow> \<not> (el \<and> mu)"
  by (auto dest!: electron_branch_Inr muon_branch_Inr)

lemma quality_body_Inr:
  assumes "quality_body ev j (g, i1, i2) = Inr (g', i1', i2')"
  shows "g' = g + (if good_lepton ev j then 1 else 0)"
proof -
  from assms obtain iso where iso: "isolation_cut ev j = Inr iso"
    by (auto simp: quality_body_def bindE_Inr)
  note isoval = isolation_cut_Inr [OF iso]
  show ?thesis
  proof (cases iso)
    case False
    with assms iso isoval show ?thesis
      by (auto simp: quality_body_def good_lepton_def Let_def)
  next
    case True
    with assms iso obtain el mu where
      el: "good_branch (electron_cut ev j) ev j 5 = Inr el" and
      mu: "good_branch (muon_cut ev j) ev j 3 = Inr mu" and
      g': "g' = g + (if el then 1 else 0) + (if mu then 1 else 0)"
      by (auto simp: quality_body_def bindE_Inr split: if_splits prod.splits)
    from branches_exclusive [OF el mu] have ex: "\<not> (el \<and> mu)" .
    from True isoval electron_branch_Inr [OF el] muon_branch_Inr [OF mu]
    have "good_lepton ev j \<longleftrightarrow> el \<or> mu"
      by (simp add: good_lepton_def Let_def)
    with g' ex show ?thesis
      by auto
  qed
qed

lemma quality_loop_two:
  assumes "quality_loop ev [0, Suc 0] (0, i1, i2) = Inr (g, i1', i2')"
  shows "g = (if good_lepton ev 0 then 1 else 0) + (if good_lepton ev (Suc 0) then 1 else 0)"
proof -
  from assms obtain acc where a: "quality_body ev 0 (0, i1, i2) = Inr acc"
    and b: "quality_body ev (Suc 0) acc = Inr (g, i1', i2')"
    by (auto simp: bindE_Inr)
  obtain g1 j1 j2 where acc: "acc = (g1, j1, j2)" by (cases acc)
  from quality_body_Inr [OF a [unfolded acc]] quality_body_Inr [OF b [unfolded acc]]
  show ?thesis by simp
qed


text \<open>With all vectors long enough and no zero \<open>sigd0\<close>, the loop raises nothing.\<close>

lemma isolation_cut_total:
  assumes "arrays_cover ev n" "j < n"
  shows "\<exists>r. isolation_cut ev j = Inr r"
proof -
  from assms have "j < length (lep_pt ev)" "j < length (lep_ptcone30 ev)" "j < length (lep_etcone20 ev)"
    by (simp_all add: arrays_cover_def)
  then show ?thesis
    by (cases "lep_pt ev ! j > 25000") (auto simp: isolation_cut_def py_div_def py_and_Inr_Inr)
qed

lemma track_cut_total:
  assumes "arrays_cover ev n" "j < n" "lep_tracksigd0pvunbiased ev ! j \<noteq> 0"
  shows "\<exists>r. track_cut ev j thr theta = Inr r"
proof -
  from assms have "j < length (lep_trackd0pvunbiased ev)" "j < length (lep_tracksigd0pvunbiased ev)"
    "j < length (lep_z0 ev)"
    by (simp_all add: arrays_cover_def)
  with assms(3) show ?thesis
    by (auto simp: track_cut_def py_div_def py_and_Inr_Inr)
qed

lemma good_branch_total:
  assumes "arrays_cover ev n" "j < n" "lep_tracksigd0pvunbiased ev ! j \<noteq> 0"
    and "flavour = electron_cut ev j \<or> flavour = muon_cut ev j"
  shows "\<exists>r. good_branch flavour ev j thr = Inr r"
proof -
  from assms have l: "j < length (lep_type ev)" "j < length (lep_eta ev)"
    by (simp_all add: arrays_cover_def)
  with assms(4) obtain f where f: "flavour = Inr f"
    by (auto simp: electron_cut_def muon_cut_def py_and_Inr_Inr)
  from track_cut_total [OF assms(1-3)] l f show ?thesis
    by (cases f) (auto simp: good_branch_def)
qed

lemma quality_body_total:
  assumes "arrays_cover ev n" "j < n" "lep_tracksigd0pvunbiased ev ! j \<noteq> 0"
  shows "\<exists>r. quality_body ev j acc = Inr r"
proof -
  obtain g i1 i2 where acc: "acc = (g, i1, i2)" by (cases acc)
  from isolation_cut_total [OF assms(1,2)] obtain iso where iso: "isolation_cut ev j = Inr iso" ..
  from good_branch_total [OF assms, of "electron_cut ev j" 5] obtain el
    where el: "good_branch (electron_cut ev j) ev j 5 = Inr el" by auto
  from good_branch_total [OF assms, of "muon_cut ev j" 3] obtain mu
    where mu: "good_branch (muon_cut ev j) ev j 3 = Inr mu" by auto
  show ?thesis
    by (cases iso; cases el) (auto simp: quality_body_def acc iso el mu)
qed

lemma quality_loop_total:
  assumes "arrays_cover ev 2" "0 \<notin> set (take 2 (lep_tracksigd0pvunbiased ev))"
  shows "\<exists>r. quality_loop ev [0, Suc 0] acc = Inr r"
proof -
  from assms(1) have len: "2 \<le> length (lep_tracksigd0pvunbiased ev)"
    by (simp add: arrays_cover_def)
  with assms(2) have nz: "lep_tracksigd0pvunbiased ev ! 0 \<noteq> 0" "lep_tracksigd0pvunbiased ev ! Suc 0 \<noteq> 0"
    by (auto simp: in_set_conv_nth)
  from quality_body_total [OF assms(1) _ nz(1), of acc] obtain r1
    where r1: "quality_body ev 0 acc = Inr r1" by auto
  from quality_body_total [OF assms(1) _ nz(2), of r1] obtain r2
    where r2: "quality_body ev (Suc 0) r1 = Inr r2" by auto
  have "quality_loop ev [0, Suc 0] acc = Inr r2"
    by (simp add: r1 r2)
  then show ?thesis ..
qed


subsection \<open>What one iteration does to the variables\<close>

lemma signal_step_cases:
  assumes "signal_step infos samplesSig ev st = Inr st'"
  obtains (rejected) "unchanged_columns st st'" "k st' = k st + 1"
  | (kept) i1 i2 a b smp w where
      "lep_kin ev i1 = Inr a" "lep_kin ev i2 = Inr b" "index1 st' = i1" "index2 st' = i2"
      "signal_sample (k st + 1) samplesSig (sample st) = Inr smp"
      "mc_weight infos smp ev = Inr w" "sample st' = smp"
      "kf st' = kf st + 1" "k st' = k st + 1"
      "invM st' = invM st @ [invmass_of (lead_sublead a b)]"
      "leadpt st' = leadpt st @ [Pt (fst (lead_sublead a b)) / 1000]"
      "subleadpt st' = subleadpt st @ [Pt (snd (lead_sublead a b)) / 1000]"
      "weights st' = weights st @ [w]"
proof (cases "(trigE ev \<or> trigM ev) \<and> lep_n ev = 2")
  case False
  with assms have "st' = st\<lparr>k := k st + 1\<rparr>"
    by (auto simp: signal_step_def Let_def split: if_splits)
  then show ?thesis
    by (intro rejected) (simp_all add: unchanged_columns_def)
next
  case True
  with assms obtain g i1 i2 where
    sel: "signal_select infos samplesSig ev g (st\<lparr>k := k st + 1, index1 := i1, index2 := i2\<rparr>) = Inr st'"
    by (auto simp: signal_step_def Let_def bindE_Inr)
  from signal_select_Inr [OF sel] show ?thesis
  proof (elim disjE conjE exE)
    assume "st' = st\<lparr>k := k st + 1, index1 := i1, index2 := i2\<rparr>"
    then show ?thesis
      by (intro rejected) (simp_all add: unchanged_columns_def)
  next
    fix a b smp w
    assume "lep_kin ev (index1 (st\<lparr>k := k st + 1, index1 := i1, index2 := i2\<rparr>)) = Inr a"
      "lep_kin ev (index2 (st\<lparr>k := k st + 1, index1 := i1, index2 := i2\<rparr>)) = Inr b"
      "signal_sample (k (st\<lparr>k := k st + 1, index1 := i1, index2 := i2\<rparr>)) samplesSig
         (sample (st\<lparr>k := k st + 1, index1 := i1, index2 := i2\<rparr>)) = Inr smp"
      "mc_weight infos smp ev = Inr w"
      "st' = st\<lparr>k := k st + 1, index1 := i1, index2 := i2\<rparr>
         \<lparr>kf := kf (st\<lparr>k := k st + 1, index1 := i1, index2 := i2\<rparr>) + 1, sample := smp,
          invM := invM (st\<lparr>k := k st + 1, index1 := i1, index2 := i2\<rparr>) @ [invmass_of (lead_sublead a b)],
          leadpt := leadpt (st\<lparr>k := k st + 1, index1 := i1, index2 := i2\<rparr>) @ [Pt (fst (lead_sublead a b)) / 1000],
          subleadpt := subleadpt (st\<lparr>k := k st + 1, index1 := i1, index2 := i2\<rparr>) @ [Pt (snd (lead_sublead a b)) / 1000],
          weights := weights (st\<lparr>k := k st + 1, index1 := i1, index2 := i2\<rparr>) @ [w]\<rparr>"
    then show ?thesis
      by (intro kept [of i1 a i2 b smp w]) simp_all
  qed
qed

lemma background_step_cases:
  assumes "background_step infos samplesBck ev st = Inr st'"
  obtains (rejected) "st' = st\<lparr>k := k st + 1\<rparr>" "\<not> ((trigE ev \<or> trigM ev) \<and> lep_n ev = 2)"
  | (kept) a b smp w where
      "lep_kin ev (index1 st) = Inr a" "lep_kin ev (index2 st) = Inr b"
      "index1 st' = index1 st" "index2 st' = index2 st"
      "background_sample (k st + 1) samplesBck (sample st) = Inr smp"
      "mc_weight infos smp ev = Inr w" "sample st' = smp"
      "kf st' = kf st + 1" "k st' = k st + 1"
      "invM st' = invM st @ [invmass_of (lead_sublead a b)]"
      "leadpt st' = leadpt st @ [Pt (fst (lead_sublead a b)) / 1000]"
      "subleadpt st' = subleadpt st @ [Pt (snd (lead_sublead a b)) / 1000]"
      "weights st' = weights st @ [w]"
proof (cases "(trigE ev \<or> trigM ev) \<and> lep_n ev = 2")
  case False
  with assms have "st' = st\<lparr>k := k st + 1\<rparr>"
    by (auto simp: background_step_def Let_def split: if_splits)
  with False show ?thesis
    by (intro rejected)
next
  case True
  with assms obtain a b where ab: "lep_kin ev (index1 st) = Inr a" "lep_kin ev (index2 st) = Inr b"
    and f: "fill_mc background_sample infos samplesBck ev (invmass_of (lead_sublead a b))
         (Pt (fst (lead_sublead a b)) / 1000) (Pt (snd (lead_sublead a b)) / 1000)
         (st\<lparr>k := k st + 1\<rparr>) = Inr st'"
    by (auto simp: background_step_def Let_def bindE_Inr reconstruct_components)
  from fill_mc_Inr [OF f] obtain smp w where
    "background_sample (k st + 1) samplesBck (sample st) = Inr smp" "mc_weight infos smp ev = Inr w"
    "st' = st\<lparr>k := k st + 1\<rparr>\<lparr>kf := kf st + 1, sample := smp,
        invM := invM st @ [invmass_of (lead_sublead a b)],
        leadpt := leadpt st @ [Pt (fst (lead_sublead a b)) / 1000],
        subleadpt := subleadpt st @ [Pt (snd (lead_sublead a b)) / 1000],
        weights := weights st @ [w]\<rparr>"
    by auto
  with ab show ?thesis
    by (intro kept [of a b smp w]) simp_all
qed

lemma data_step_cases:
  assumes "data_step ev st = Inr st'"
  obtains (rejected) "st' = st\<lparr>k := k st + 1\<rparr>" "\<not> ((trigE ev \<or> trigM ev) \<and> lep_n ev = 2)"
  | (kept) a b where
      "lep_kin ev (index1 st) = Inr a" "lep_kin ev (index2 st) = Inr b"
      "index1 st' = index1 st" "index2 st' = index2 st"
      "sample st' = sample st"
      "kf st' = kf st + 1" "k st' = k st + 1"
      "invM st' = invM st @ [invmass_of (lead_sublead a b)]"
      "leadpt st' = leadpt st @ [Pt (fst (lead_sublead a b)) / 1000]"
      "subleadpt st' = subleadpt st @ [Pt (snd (lead_sublead a b)) / 1000]"
      "weights st' = weights st @ [1]"
proof (cases "(trigE ev \<or> trigM ev) \<and> lep_n ev = 2")
  case False
  with assms have "st' = st\<lparr>k := k st + 1\<rparr>"
    by (auto simp: data_step_def Let_def split: if_splits)
  with False show ?thesis
    by (intro rejected)
next
  case True
  with assms obtain a b where ab: "lep_kin ev (index1 st) = Inr a" "lep_kin ev (index2 st) = Inr b"
    and f: "st' = append_weight 1 (append_kinematics (invmass_of (lead_sublead a b))
         (Pt (fst (lead_sublead a b)) / 1000) (Pt (snd (lead_sublead a b)) / 1000)
         (st\<lparr>k := k st + 1\<rparr>))"
    by (auto simp: data_step_def Let_def bindE_Inr reconstruct_components)
  with ab show ?thesis
    by (intro kept [of a b]) (simp_all add: append_weight_def append_kinematics_def)
qed

lemma cell_step_cases:
  assumes "cell_step c infos samples ev st = Inr st'"
  obtains (rejected) "unchanged_columns st st'" "k st' = k st + 1"
  | (kept) a b w where
      "lep_kin ev (index1 st') = Inr a" "lep_kin ev (index2 st') = Inr b"
      "kf st' = kf st + 1" "k st' = k st + 1"
      "invM st' = invM st @ [invmass_of (lead_sublead a b)]"
      "leadpt st' = leadpt st @ [Pt (fst (lead_sublead a b)) / 1000]"
      "subleadpt st' = subleadpt st @ [Pt (snd (lead_sublead a b)) / 1000]"
      "weights st' = weights st @ [w]"
      "c = Data \<and> w = 1 \<or> c \<noteq> Data \<and> mc_weight infos (sample st') ev = Inr w"
proof (cases c)
  case Signal
  with assms have "signal_step infos samples ev st = Inr st'" by simp
  then show ?thesis
  proof (cases rule: signal_step_cases)
    case rejected
    then show ?thesis by (rule that(1))
  next
    case (kept i1 i2 a b smp w)
    with Signal show ?thesis
      by (intro that(2) [of a b w]) simp_all
  qed
next
  case Background
  with assms have "background_step infos samples ev st = Inr st'" by simp
  then show ?thesis
  proof (cases rule: background_step_cases)
    case rejected
    then show ?thesis by (intro that(1)) (simp_all add: unchanged_columns_def)
  next
    case (kept a b smp w)
    with Background show ?thesis
      by (intro that(2) [of a b w]) simp_all
  qed
next
  case Data
  with assms have "data_step ev st = Inr st'" by simp
  then show ?thesis
  proof (cases rule: data_step_cases)
    case rejected
    then show ?thesis by (intro that(1)) (simp_all add: unchanged_columns_def)
  next
    case (kept a b)
    with Data show ?thesis
      by (intro that(2) [of a b 1]) simp_all
  qed
qed

lemma cell_step_columns:
  assumes "cell_step c infos samples ev st = Inr st'"
  shows "unchanged_columns st st' \<or> appended_one st st'"
  using assms by (cases rule: cell_step_cases) (simp_all add: appended_one_def)

lemma length_appended: "xs' = xs @ [last xs'] \<Longrightarrow> int (length xs') = int (length xs) + 1"
  by (metis length_append_singleton of_nat_Suc add.commute)

lemma columns_agree_step:
  assumes "columns_agree st" and "unchanged_columns st st' \<or> appended_one st st'"
  shows "columns_agree st'"
  using assms(2)
proof
  assume "unchanged_columns st st'"
  with assms(1) show ?thesis by (simp add: columns_agree_def unchanged_columns_def)
next
  assume a: "appended_one st st'"
  then have "int (length (invM st')) = int (length (invM st)) + 1"
    "int (length (leadpt st')) = int (length (leadpt st)) + 1"
    "int (length (subleadpt st')) = int (length (subleadpt st)) + 1"
    "int (length (weights st')) = int (length (weights st)) + 1"
    by (simp_all only: appended_one_def length_appended)
  moreover from a have "kf st' = kf st + 1"
    by (simp only: appended_one_def)
  ultimately show ?thesis
    using assms(1) by (simp add: columns_agree_def)
qed

lemma run_loop_columns:
  assumes "run_loop (cell_step c infos samples) evs st = Inr st'" and "columns_agree st"
  shows "columns_agree st' \<and> kf st' = kf st + int (kept_count (cell_step c infos samples) evs st)"
  using assms
proof (induction evs arbitrary: st)
  case Nil
  then show ?case by simp
next
  case (Cons ev evs)
  from Cons.prems(1) obtain st1 where s1: "cell_step c infos samples ev st = Inr st1"
    and r: "run_loop (cell_step c infos samples) evs st1 = Inr st'"
    by (auto simp: bindE_Inr)
  from cell_step_columns [OF s1] have g: "unchanged_columns st st1 \<or> appended_one st st1" .
  with Cons.prems(2) have c1: "columns_agree st1" by (rule columns_agree_step)
  from g have "kf st1 = kf st \<or> kf st1 = kf st + 1"
    by (auto simp only: unchanged_columns_def appended_one_def)
  then have "kf st1 = kf st + (if kf st1 = kf st + 1 then 1 else 0)"
    by auto
  moreover have "kept_count (cell_step c infos samples) (ev # evs) st =
      (if kf st1 = kf st + 1 then 1 else 0) + kept_count (cell_step c infos samples) evs st1"
    by (simp add: s1)
  ultimately show ?case
    using Cons.IH [OF r c1] by auto
qed




subsection \<open>The example rows, step by step\<close>

lemma ev_gate2:
  "\<not> lep_n ev_three = 2" 
  by (simp_all add: ev_three_def ev_mumu_def)

lemma sqrt_mass: "sqrt 6400000000 = 80000"
  by (rule real_sqrt_unique) simp_all

lemma lep_kin_mumu:
  "lep_kin ev_mumu 0 = Inr \<lparr>kin_pt = 32000, kin_eta = 0, kin_phi = 0, kin_E = 50000\<rparr>"
  "lep_kin ev_mumu (Suc 0) = Inr \<lparr>kin_pt = 28000, kin_eta = 0, kin_phi = 0, kin_E = 50000\<rparr>"
  by (simp_all add: lep_kin_def ev_mumu_def)

lemma invmass_mumu:
  "invmass_of (lead_sublead \<lparr>kin_pt = 32000, kin_eta = 0, kin_phi = 0, kin_E = 50000\<rparr>
     \<lparr>kin_pt = 28000, kin_eta = 0, kin_phi = 0, kin_E = 50000\<rparr>) = 80"
  by (simp add: invmass_of_def lead_sublead_def set_lepton_def SetPtEtaPhiE_def lorentz_add_def
      M_def Mag2_def sqrt_mass)

lemma pts_mumu:
  "Pt (fst (lead_sublead \<lparr>kin_pt = 32000, kin_eta = 0, kin_phi = 0, kin_E = 50000\<rparr>
     \<lparr>kin_pt = 28000, kin_eta = 0, kin_phi = 0, kin_E = 50000\<rparr>)) = 32000"
  "Pt (snd (lead_sublead \<lparr>kin_pt = 32000, kin_eta = 0, kin_phi = 0, kin_E = 50000\<rparr>
     \<lparr>kin_pt = 28000, kin_eta = 0, kin_phi = 0, kin_E = 50000\<rparr>)) = 28000"
  by (simp_all add: lead_sublead_def Pt_set_lepton)

lemma signal_sample0: "signal_sample 2 samplesSig0 s = Inr (Some ''Zee'')"
  by (simp add: signal_sample_def samplesSig0_def upto_cond_in between_cond_in chain_if_Inr)

lemma mc_weight0: "mc_weight infos0 (Some ''Zee'') ev_mumu = Inr 5000"
  by (simp add: mc_weight_def infos0_def py_div_def lumi_def ev_mumu_def)

lemma pair_cut_mumu:
  "pair_cut ev_mumu 0 (Suc 0) = Inr True" "pair_cut ev_mumu (Suc 0) (Suc 0) = Inr False"
  by (simp_all add: pair_cut_def ev_mumu_def)

lemma fill0:
  "fill_mc signal_sample infos0 samplesSig0 ev_mumu 80 32 28
     \<lparr>k = 2, kf = 0, index1 = 0, index2 = Suc 0, sample = None,
       invM = [], leadpt = [], subleadpt = [], weights = []\<rparr> = Inr st_kept"
  by (simp add: fill_mc_def append_kinematics_def signal_sample0 mc_weight0 append_weight_def
      st_kept_def)

lemma step_notrig:
  "signal_step infos0 samplesSig0 ev_notrig signal_init = Inr (signal_init\<lparr>k := 1\<rparr>)"
  by (simp add: signal_step_def ev_gate signal_init_def)

lemma step_ele:
  "signal_step infos0 samplesSig0 ev_ele signal_init = Inr (signal_init\<lparr>k := 1, index1 := Suc 0\<rparr>)"
  by (simp only: signal_step_unfold [OF ev_gate(4) ev_gate(5)] ql_ele)
     (simp add: signal_select_def signal_init_def)

lemma step_mumu_fresh:
  "signal_step infos0 samplesSig0 ev_mumu (signal_init\<lparr>k := 1\<rparr>) = Inr st_kept"
  by (simp only: signal_step_unfold [OF ev_gate(1) ev_gate(2)] ql_mumu)
     (simp add: ev_gate signal_select_def signal_init_def pair_cut_mumu
      signal_fill_def lep_kin_mumu Let_def invmass_mumu pts_mumu fill0)

lemma step_mumu_stale:
  "signal_step infos0 samplesSig0 ev_mumu (signal_init\<lparr>k := 1, index1 := Suc 0\<rparr>)
     = Inr (signal_init\<lparr>k := 2, index1 := Suc 0, index2 := Suc 0\<rparr>)"
  by (simp only: signal_step_unfold [OF ev_gate(1) ev_gate(2)] ql_mumu)
     (simp add: ev_gate signal_select_def signal_init_def pair_cut_mumu)

lemma data_step_mumu:
  "data_step ev_mumu fixed_init =
     Inr \<lparr>k = 1, kf = 1, index1 = 0, index2 = 1, sample = None,
           invM = [80], leadpt = [32], subleadpt = [28], weights = [1]\<rparr>"
  by (simp add: data_step_def ev_gate fixed_init_def lep_kin_mumu reconstruct_components
      invmass_mumu pts_mumu append_weight_def append_kinematics_def)




section \<open>The claims\<close>

text \<open>
  C1 (the code breaks it). The claim says that the verdict for a row depends only on
  the row, \<open>k\<close>, \<open>kf\<close> and the output lists, not on \<open>index1\<close>/\<open>index2\<close> left by
  earlier rows. In the signal loop \<open>index1\<close> is written only by a good electron and
  \<open>index2\<close> only by a good muon, and neither is reset per row. The muon row \<open>ev_mumu\<close>
  is kept as second row after a row that fired no trigger, and rejected as second row
  after \<open>ev_ele\<close>, which left \<open>index1 = 1\<close>: the two states before the muon row differ
  in \<open>index1\<close> only.
\<close>

theorem stale_index1_rejects_muon_pair:
  "run_loop (signal_step infos0 samplesSig0) [ev_notrig] signal_init = Inr (signal_init\<lparr>k := 1\<rparr>)
   \<and> run_loop (signal_step infos0 samplesSig0) [ev_ele] signal_init
       = Inr (signal_init\<lparr>k := 1, index1 := 1\<rparr>)
   \<and> signal_step infos0 samplesSig0 ev_mumu (signal_init\<lparr>k := 1\<rparr>) = Inr st_kept
   \<and> signal_step infos0 samplesSig0 ev_mumu (signal_init\<lparr>k := 1, index1 := 1\<rparr>)
       = Inr (signal_init\<lparr>k := 2, index1 := 1, index2 := 1\<rparr>)
   \<and> run_loop (signal_step infos0 samplesSig0) [ev_notrig, ev_mumu] signal_init = Inr st_kept
   \<and> run_loop (signal_step infos0 samplesSig0) [ev_ele, ev_mumu] signal_init
       = Inr (signal_init\<lparr>k := 2, index1 := 1, index2 := 1\<rparr>)"
  by (simp add: step_notrig step_ele step_mumu_fresh step_mumu_stale)


text \<open>
  C2 (as stated, refuted). The claim says the muon condition \<open>abs(lep_eta[j]<2.5)\<close> is
  always true. At \<open>eta = 3\<close> it is false: the muon in slot 0 of \<open>ev_eta3\<close> passes every
  other condition (the same lepton at \<open>eta = 0\<close> in \<open>ev_mumu\<close> is counted) and is not
  counted.
\<close>

theorem muon_eta_cond_false_at_3:
  "\<not> muon_eta_cond 3 \<and> muon_cut ev_eta3 0 = Inr False
   \<and> quality_body ev_eta3 0 (0, 0, 0) = Inr (0, 0, 0)
   \<and> quality_body ev_mumu 0 (0, 0, 0) = Inr (1, 0, 0)"
  by (simp add: ev_eta3_def ev_mumu_def quality_defs)

text \<open>
  C2 (amended). The muon pseudorapidity condition is not always true: it holds for
  every muon with \<open>|eta| < 2.5\<close> and fails for every muon with \<open>eta \<ge> 2.5\<close>.
\<close>

theorem muon_eta_cond_cases:
  "(\<bar>eta\<bar> < 2.5 \<longrightarrow> muon_eta_cond eta) \<and> (2.5 \<le> eta \<longrightarrow> \<not> muon_eta_cond eta)"
  by (auto simp: muon_eta_cond_iff)

theorem muon_eta_cond_cases_witness:
  "\<bar>0 :: real\<bar> < 2.5 \<and> muon_eta_cond 0 \<and> (2.5 :: real) \<le> 4 \<and> \<not> muon_eta_cond 4"
  using muon_eta_cond_cases [of 0] muon_eta_cond_cases [of 4] by simp

text \<open>
  C3 (as stated, refuted). The claim says that some row with a lepton of \<open>pt = 0\<close>
  makes the selector evaluate \<open>ptcone30/pt\<close> or \<open>etcone20/pt\<close> with a zero divisor.
  No row does: a zero divisor would show as ZeroDivisionError, and the isolation
  condition never raises it. The row \<open>ev_pt0\<close> reaches the loop with \<open>pt = 0\<close> in
  slot 0 and is rejected without an exception.
\<close>

theorem isolation_division_never_by_zero_pt:
  "\<not> (\<exists>ev j. vec_at (lep_pt ev) j = Inr 0 \<and> isolation_cut ev j = Inl ZeroDivisionError)
   \<and> signal_step Map.empty [] ev_pt0 signal_init = Inr (signal_init\<lparr>k := 1, index2 := 1\<rparr>)"
proof -
  have "signal_step Map.empty [] ev_pt0 signal_init = Inr (signal_init\<lparr>k := 1, index2 := 1\<rparr>)"
    by (simp only: signal_step_unfold [OF ev_gate(7) ev_gate(8)] ql_pt0)
       (simp add: signal_select_def signal_init_def)
  then show ?thesis
    by (simp add: isolation_cut_no_zero_division)
qed

text \<open>
  C3 (amended). The isolation divisions are guarded by the short-circuit \<open>and\<close>:
  \<open>lep_pt[j] > 25000.\<close> is evaluated first, so neither \<open>ptcone30/pt\<close> nor
  \<open>etcone20/pt\<close> is ever evaluated with a zero divisor, and a lepton with
  \<open>pt \<le> 25000\<close> (in particular \<open>pt = 0\<close>) makes the condition false.
\<close>

theorem isolation_cut_guarded:
  "isolation_cut ev j \<noteq> Inl ZeroDivisionError
   \<and> (\<forall>p. vec_at (lep_pt ev) j = Inr p \<and> p \<le> 25000 \<longrightarrow> isolation_cut ev j = Inr False)"
  by (simp add: isolation_cut_no_zero_division isolation_cut_low_pt)

theorem isolation_cut_guarded_witness:
  "vec_at (lep_pt ev_pt0) 0 = Inr 0 \<and> isolation_cut ev_pt0 0 = Inr False
   \<and> isolation_cut ev_pt0 0 \<noteq> Inl ZeroDivisionError"
proof -
  have h: "vec_at (lep_pt ev_pt0) 0 = Inr 0"
    by (simp add: ev_pt0_def)
  with isolation_cut_guarded [of ev_pt0 0] show ?thesis
    by simp
qed

text \<open>
  C4. For strictly increasing boundaries and an index not above the last boundary, the
  chain of \<open>if\<close> statements gives the name of the first boundary that is greater than
  or equal to the index, whatever \<open>sample\<close> held before; the signal chain (three
  boundaries) and the background chain (twelve) are instances. The witness is the
  spec's example: 100 and 250 and 400 resolve to their own sample, 101 and 251 to the
  next one.
\<close>

theorem attribution_resolves_first_boundary:
  assumes "sorted_wrt (<) (map fst bs)" and "bs \<noteq> []" and "n \<le> fst (last bs)"
  shows "attribution_chain n None bs s = first_boundary n bs \<and> first_boundary n bs \<noteq> None
    \<and> (bs = zip samplesSig signal_names \<and> length samplesSig = 3 \<longrightarrow>
         signal_sample n samplesSig s = Inr (first_boundary n bs))
    \<and> (bs = zip samplesBck background_names \<and> length samplesBck = 12 \<longrightarrow>
         background_sample n samplesBck s = Inr (first_boundary n bs))"
proof -
  from assms(1) have "sorted (map fst bs)"
    by (rule strict_sorted_imp_sorted)
  then have "attribution_chain n None bs s =
      (case first_boundary n bs of None \<Rightarrow> s | Some name \<Rightarrow> Some name)"
    by (rule attribution_chain_find) simp
  moreover have some: "first_boundary n bs \<noteq> None"
    using assms(2,3) by (rule first_boundary_Some)
  ultimately have eq: "attribution_chain n None bs s = first_boundary n bs"
    by (auto split: option.splits)
  show ?thesis
    using eq some by (auto simp: signal_sample_chain background_sample_chain)
qed

theorem attribution_resolves_first_boundary_witness:
  "attribution_chain 100 None boundaries0 None = Some ''S1''
   \<and> attribution_chain 101 None boundaries0 None = Some ''S2''
   \<and> attribution_chain 250 None boundaries0 None = Some ''S2''
   \<and> attribution_chain 251 None boundaries0 None = Some ''S3''
   \<and> attribution_chain 400 None boundaries0 None = Some ''S3''
   \<and> signal_sample 100 samplesSig0 None = Inr (Some ''Zee'')
   \<and> signal_sample 101 samplesSig0 None = Inr (Some ''Zmumu'')"
proof -
  have l: "(100::int) \<le> fst (last boundaries0)" "(101::int) \<le> fst (last boundaries0)"
    "(250::int) \<le> fst (last boundaries0)" "(251::int) \<le> fst (last boundaries0)"
    "(400::int) \<le> fst (last boundaries0)"
    by (simp_all add: boundaries0_def)
  have f: "first_boundary 100 boundaries0 = Some ''S1''" "first_boundary 101 boundaries0 = Some ''S2''"
    "first_boundary 250 boundaries0 = Some ''S2''" "first_boundary 251 boundaries0 = Some ''S3''"
    "first_boundary 400 boundaries0 = Some ''S3''"
    by (simp_all add: boundaries0_def first_boundary_def)
  have z: "zip samplesSig0 signal_names = [(100, ''Zee''), (250, ''Zmumu''), (400, ''Ztautau'')]"
    "length samplesSig0 = 3"
    by (simp_all add: samplesSig0_def signal_names_def)
  have s: "sorted_wrt (<) (map fst (zip samplesSig0 signal_names))" "zip samplesSig0 signal_names \<noteq> []"
    "(100::int) \<le> fst (last (zip samplesSig0 signal_names))"
    "(101::int) \<le> fst (last (zip samplesSig0 signal_names))"
    "first_boundary 100 (zip samplesSig0 signal_names) = Some ''Zee''"
    "first_boundary 101 (zip samplesSig0 signal_names) = Some ''Zmumu''"
    by (simp_all add: z first_boundary_def)
  show ?thesis
    using attribution_resolves_first_boundary [OF boundaries0_sorted l(1), of None]
      attribution_resolves_first_boundary [OF boundaries0_sorted l(2), of None]
      attribution_resolves_first_boundary [OF boundaries0_sorted l(3), of None]
      attribution_resolves_first_boundary [OF boundaries0_sorted l(4), of None]
      attribution_resolves_first_boundary [OF boundaries0_sorted l(5), of None]
      attribution_resolves_first_boundary [OF s(1) s(2) s(3), of None samplesSig0]
      attribution_resolves_first_boundary [OF s(1) s(2) s(4), of None samplesSig0]
    by (simp add: f s z(2))
qed


text \<open>
  C5. On the data path a kept row appends the weight 1. On the signal and background
  paths a kept row appends
  \<open>(10 * 1000 * xsec) / (sumw * red_eff) * mcWeight * scaleFactor_PILEUP *
  scaleFactor_ELE * scaleFactor_MUON * scaleFactor_LepTRIGGER\<close> for the table entry of
  its sample, and the weight is produced whenever the sample is in the table and
  \<open>sumw * red_eff\<close> is not zero; \<open>lumi\<close> is 10.
\<close>

theorem weight_characterised:
  "(cell_step Data infos samples ev st = Inr st' \<and> kf st' \<noteq> kf st \<longrightarrow>
      weights st' = weights st @ [1])
   \<and> (c \<noteq> Data \<and> cell_step c infos samples ev st = Inr st' \<and> kf st' \<noteq> kf st \<longrightarrow>
        (\<exists>name entry. sample st' = Some name \<and> infos name = Some entry
           \<and> sumw entry * red_eff entry \<noteq> 0
           \<and> weights st' = weights st @
               [10 * 1000 * xsec entry / (sumw entry * red_eff entry) * mcWeight ev
                  * scaleFactor_PILEUP ev * scaleFactor_ELE ev * scaleFactor_MUON ev
                  * scaleFactor_LepTRIGGER ev]))
   \<and> (infos name = Some entry \<and> sumw entry * red_eff entry \<noteq> 0 \<longrightarrow>
        mc_weight infos (Some name) ev =
          Inr (10 * 1000 * xsec entry / (sumw entry * red_eff entry) * mcWeight ev
                 * scaleFactor_PILEUP ev * scaleFactor_ELE ev * scaleFactor_MUON ev
                 * scaleFactor_LepTRIGGER ev))
   \<and> lumi = 10"
proof -
  have d: "cell_step Data infos samples ev st = Inr st' \<and> kf st' \<noteq> kf st \<longrightarrow>
      weights st' = weights st @ [1]"
  proof
    assume h: "cell_step Data infos samples ev st = Inr st' \<and> kf st' \<noteq> kf st"
    then have "cell_step Data infos samples ev st = Inr st'" ..
    then show "weights st' = weights st @ [1]"
      using h by (cases rule: cell_step_cases) (simp_all add: unchanged_columns_def)
  qed
  have m: "c \<noteq> Data \<and> cell_step c infos samples ev st = Inr st' \<and> kf st' \<noteq> kf st \<longrightarrow>
        (\<exists>name entry. sample st' = Some name \<and> infos name = Some entry
           \<and> sumw entry * red_eff entry \<noteq> 0
           \<and> weights st' = weights st @
               [10 * 1000 * xsec entry / (sumw entry * red_eff entry) * mcWeight ev
                  * scaleFactor_PILEUP ev * scaleFactor_ELE ev * scaleFactor_MUON ev
                  * scaleFactor_LepTRIGGER ev])"
  proof
    assume h: "c \<noteq> Data \<and> cell_step c infos samples ev st = Inr st' \<and> kf st' \<noteq> kf st"
    then have "cell_step c infos samples ev st = Inr st'" by simp
    then show "\<exists>name entry. sample st' = Some name \<and> infos name = Some entry
           \<and> sumw entry * red_eff entry \<noteq> 0
           \<and> weights st' = weights st @
               [10 * 1000 * xsec entry / (sumw entry * red_eff entry) * mcWeight ev
                  * scaleFactor_PILEUP ev * scaleFactor_ELE ev * scaleFactor_MUON ev
                  * scaleFactor_LepTRIGGER ev]"
    proof (cases rule: cell_step_cases)
      case rejected
      with h show ?thesis by (simp add: unchanged_columns_def)
    next
      case (kept a b w)
      with h have "mc_weight infos (sample st') ev = Inr w" by simp
      with kept(8) show ?thesis
        by (auto simp: mc_weight_Inr)
    qed
  qed
  have f: "infos name = Some entry \<and> sumw entry * red_eff entry \<noteq> 0 \<longrightarrow>
        mc_weight infos (Some name) ev =
          Inr (10 * 1000 * xsec entry / (sumw entry * red_eff entry) * mcWeight ev
                 * scaleFactor_PILEUP ev * scaleFactor_ELE ev * scaleFactor_MUON ev
                 * scaleFactor_LepTRIGGER ev)"
    by (simp add: mc_weight_Inr)
  from d m f show ?thesis
    by (simp only: lumi_def)
qed

theorem weight_characterised_witness:
  "cell_step Data infos0 samplesSig0 ev_mumu fixed_init
     = Inr \<lparr>k = 1, kf = 1, index1 = 0, index2 = 1, sample = None,
             invM = [80], leadpt = [32], subleadpt = [28], weights = [1]\<rparr>
   \<and> cell_step Signal infos0 samplesSig0 ev_mumu (signal_init\<lparr>k := 1\<rparr>) = Inr st_kept
   \<and> infos0 ''Zee'' = Some \<lparr>xsec = 2, sumw = 4, red_eff = 1\<rparr>
   \<and> weights st_kept = [5000]
   \<and> mc_weight infos0 (Some ''Zee'') ev_mumu = Inr (10 * 1000 * 2 / (4 * 1) * 1 * 1 * 1 * 1 * 1)"
proof -
  have i: "infos0 ''Zee'' = Some \<lparr>xsec = 2, sumw = 4, red_eff = 1\<rparr>"
    by (simp add: infos0_def)
  have e: "mcWeight ev_mumu = 1" "scaleFactor_PILEUP ev_mumu = 1" "scaleFactor_ELE ev_mumu = 1"
    "scaleFactor_MUON ev_mumu = 1" "scaleFactor_LepTRIGGER ev_mumu = 1"
    by (simp_all add: ev_mumu_def)
  have k: "kf st_kept \<noteq> kf (signal_init\<lparr>k := 1\<rparr>)" "weights st_kept = [5000]"
    by (simp_all add: st_kept_def signal_init_def)
  from weight_characterised [of infos0 samplesSig0 ev_mumu "signal_init\<lparr>k := 1\<rparr>" st_kept
      Signal "''Zee''" "\<lparr>xsec = 2, sumw = 4, red_eff = 1\<rparr>"] i e k
  show ?thesis
    by (simp add: data_step_mumu step_mumu_fresh)
qed


text \<open>
  C6. A row whose \<open>lep_n\<close> is not 2 only advances \<open>k\<close>, on all three paths: nothing
  is read from the lepton vectors, nothing is appended, and no exception is possible.
\<close>

theorem lep_n_not_two_rejected:
  "lep_n ev \<noteq> 2 \<Longrightarrow> cell_step c infos samples ev st = Inr (st\<lparr>k := k st + 1\<rparr>)"
  by (cases c) (simp_all add: signal_step_def background_step_def data_step_def Let_def)

theorem lep_n_not_two_rejected_witness:
  "lep_n ev_three \<noteq> 2
   \<and> cell_step Signal infos0 samplesSig0 ev_three signal_init = Inr (signal_init\<lparr>k := 1\<rparr>)
   \<and> cell_step Background infos0 samplesSig0 ev_three fixed_init = Inr (fixed_init\<lparr>k := 1\<rparr>)
   \<and> cell_step Data infos0 samplesSig0 ev_three fixed_init = Inr (fixed_init\<lparr>k := 1\<rparr>)"
  using lep_n_not_two_rejected [OF ev_gate2, of Signal infos0 samplesSig0 signal_init]
    lep_n_not_two_rejected [OF ev_gate2, of Background infos0 samplesSig0 fixed_init]
    lep_n_not_two_rejected [OF ev_gate2, of Data infos0 samplesSig0 fixed_init]
  by (simp add: ev_gate2 signal_init_def fixed_init_def)


text \<open>
  C7. The pair reconstruction gives the same (invmass, ptlead, ptsub) for both orders
  of its two leptons; in particular the mass the signal path computes is the same, and
  ptlead is the transverse momentum of the lepton with the larger \<open>lep_pt\<close>, ptsub
  that of the other one (TLorentzVector stores \<open>|pt|\<close>).
\<close>

theorem reconstruct_swap_symmetric:
  "reconstruct a b = reconstruct b a
   \<and> invmass_of (lead_sublead a b) = invmass_of (lead_sublead b a)
   \<and> snd (reconstruct a b) =
       (\<bar>max (kin_pt a) (kin_pt b)\<bar> / 1000, \<bar>min (kin_pt a) (kin_pt b)\<bar> / 1000)"
proof -
  have "fst (reconstruct a b) = fst (reconstruct b a)"
    by (simp add: reconstruct_def Let_def invmass_of_swap)
  moreover have "snd (reconstruct a b) = snd (reconstruct b a)"
    by (simp add: reconstruct_pts max.commute min.commute)
  ultimately have "reconstruct a b = reconstruct b a"
    by (rule prod_eqI)
  with invmass_of_swap [of a b] reconstruct_pts [of a b] show ?thesis
    by blast
qed






text \<open>
  C9. Every iteration that completes either leaves \<open>kf\<close> and the four lists as they
  were or adds one to \<open>kf\<close> and one entry to each list, so the four lengths equal
  \<open>kf\<close> after every prefix of the run, starting from the empty lists; when the loop
  has gone through all rows the cell extends the empty tree by exactly one batch, the
  four lists, whose common length is the number of kept rows. The tree is touched
  nowhere else, and a run that raises extends nothing.
\<close>

theorem columns_track_kf:
  "(columns_agree st \<and> cell_step c infos samples ev st = Inr st' \<longrightarrow>
      columns_agree st' \<and> (unchanged_columns st st' \<or> appended_one st st'))
   \<and> columns_agree (cell_init c) \<and> kf (cell_init c) = 0
   \<and> (run_loop (cell_step c infos samples) (take n evs) (cell_init c) = Inr st1 \<longrightarrow>
        columns_agree st1)
   \<and> (run_cell c infos samples evs = Inr (st2, tree) \<longleftrightarrow>
        run_loop (cell_step c infos samples) evs (cell_init c) = Inr st2
        \<and> tree = [\<lparr>mll = invM st2, lead = leadpt st2, sublead = subleadpt st2,
                    weight = weights st2\<rparr>])
   \<and> (run_loop (cell_step c infos samples) evs (cell_init c) = Inr st2 \<longrightarrow>
        columns_agree st2
        \<and> kf st2 = int (kept_count (cell_step c infos samples) evs (cell_init c))
        \<and> length (invM st2) = kept_count (cell_step c infos samples) evs (cell_init c))"
proof -
  have step: "columns_agree st \<and> cell_step c infos samples ev st = Inr st' \<longrightarrow>
      columns_agree st' \<and> (unchanged_columns st st' \<or> appended_one st st')"
    using cell_step_columns columns_agree_step by blast
  have init: "columns_agree (cell_init c)" "kf (cell_init c) = 0"
    by (cases c; simp add: columns_agree_def signal_init_def fixed_init_def)+
  have pre: "run_loop (cell_step c infos samples) (take n evs) (cell_init c) = Inr st1 \<longrightarrow>
      columns_agree st1"
    using run_loop_columns [OF _ init(1)] by blast
  have flush: "run_cell c infos samples evs = Inr (st2, tree) \<longleftrightarrow>
      run_loop (cell_step c infos samples) evs (cell_init c) = Inr st2
      \<and> tree = [\<lparr>mll = invM st2, lead = leadpt st2, sublead = subleadpt st2,
                  weight = weights st2\<rparr>]"
    by (auto simp: run_cell_def pipeline_def bindE_Inr extend_def)
  have final: "run_loop (cell_step c infos samples) evs (cell_init c) = Inr st2 \<longrightarrow>
      columns_agree st2
      \<and> kf st2 = int (kept_count (cell_step c infos samples) evs (cell_init c))
      \<and> length (invM st2) = kept_count (cell_step c infos samples) evs (cell_init c)"
  proof
    assume r: "run_loop (cell_step c infos samples) evs (cell_init c) = Inr st2"
    from run_loop_columns [OF r init(1)] init(2)
    have "columns_agree st2"
      and "kf st2 = int (kept_count (cell_step c infos samples) evs (cell_init c))"
      by simp_all
    then show "columns_agree st2
      \<and> kf st2 = int (kept_count (cell_step c infos samples) evs (cell_init c))
      \<and> length (invM st2) = kept_count (cell_step c infos samples) evs (cell_init c)"
      by (simp add: columns_agree_def)
  qed
  from step init pre flush final show ?thesis
    by blast
qed

theorem columns_track_kf_witness:
  "columns_agree (signal_init\<lparr>k := 1\<rparr>)
   \<and> cell_step Signal infos0 samplesSig0 ev_mumu (signal_init\<lparr>k := 1\<rparr>) = Inr st_kept
   \<and> columns_agree st_kept \<and> appended_one (signal_init\<lparr>k := 1\<rparr>) st_kept
   \<and> run_loop (cell_step Signal infos0 samplesSig0) (take 1 [ev_notrig, ev_mumu])
        (cell_init Signal) = Inr (signal_init\<lparr>k := 1\<rparr>)
   \<and> run_cell Signal infos0 samplesSig0 [ev_notrig, ev_mumu]
        = Inr (st_kept, [\<lparr>mll = [80], lead = [32], sublead = [28], weight = [5000]\<rparr>])
   \<and> kept_count (cell_step Signal infos0 samplesSig0) [ev_notrig, ev_mumu] (cell_init Signal) = 1
   \<and> kf st_kept = 1 \<and> length (invM st_kept) = 1"
proof -
  have c0: "columns_agree (signal_init\<lparr>k := 1\<rparr>)"
    by (simp add: columns_agree_def signal_init_def)
  have s: "cell_step Signal infos0 samplesSig0 ev_mumu (signal_init\<lparr>k := 1\<rparr>) = Inr st_kept"
    by (simp add: step_mumu_fresh)
  have a: "appended_one (signal_init\<lparr>k := 1\<rparr>) st_kept"
    by (simp add: appended_one_def signal_init_def st_kept_def)
  have r1: "run_loop (cell_step Signal infos0 samplesSig0) (take 1 [ev_notrig, ev_mumu])
        (cell_init Signal) = Inr (signal_init\<lparr>k := 1\<rparr>)"
    by (simp add: step_notrig)
  have r2: "run_loop (cell_step Signal infos0 samplesSig0) [ev_notrig, ev_mumu]
        (cell_init Signal) = Inr st_kept"
    by (simp add: step_notrig step_mumu_fresh)
  have b: "\<lparr>mll = invM st_kept, lead = leadpt st_kept, sublead = subleadpt st_kept,
             weight = weights st_kept\<rparr> = \<lparr>mll = [80], lead = [32], sublead = [28], weight = [5000]\<rparr>"
    by (simp add: st_kept_def)
  have kc: "kept_count (cell_step Signal infos0 samplesSig0) [ev_notrig, ev_mumu] (cell_init Signal) = 1"
  proof -
    have "kf signal_init = 0" "kf st_kept = 1"
      by (simp_all add: signal_init_def st_kept_def)
    then show ?thesis
      by (simp add: step_notrig step_mumu_fresh)
  qed
  from columns_track_kf [of "signal_init\<lparr>k := 1\<rparr>" Signal infos0 samplesSig0 ev_mumu st_kept 1
      "[ev_notrig, ev_mumu]" "signal_init\<lparr>k := 1\<rparr>" st_kept
      "[\<lparr>mll = [80], lead = [32], sublead = [28], weight = [5000]\<rparr>]"]
    c0 s a r1 r2 b kc
  show ?thesis
    by simp
qed


text \<open>
  C10. On the signal path with \<open>lep_n = 2\<close>: each lepton adds one to \<open>goodlep\<close> when it
  satisfies the good-lepton predicate and nothing otherwise (the electron and the muon
  branch exclude each other), so after the loop \<open>goodlep\<close> is the number of good
  leptons, \<open>goodlep = 2\<close> exactly when both leptons are good, and any other value
  rejects the row. The loop completes whenever the vectors have two entries and no
  \<open>sigd0\<close> is zero.
\<close>

theorem goodlep_counts_good_leptons:
  assumes "lep_n ev = 2"
  shows "(arrays_cover ev 2 \<and> 0 \<notin> set (take 2 (lep_tracksigd0pvunbiased ev)) \<longrightarrow>
           (\<exists>r. quality_loop ev [0..<nat (lep_n ev)] (0, i1, i2) = Inr r))
    \<and> (quality_loop ev [0..<nat (lep_n ev)] (0, i1, i2) = Inr (goodlep, i1', i2') \<longrightarrow>
         goodlep = int (length (filter (good_lepton ev) [0..<nat (lep_n ev)]))
         \<and> (goodlep = 2 \<longleftrightarrow> good_lepton ev 0 \<and> good_lepton ev 1)
         \<and> (goodlep \<noteq> 2 \<longrightarrow> signal_select infos samplesSig ev goodlep st = Inr st))
    \<and> (\<forall>j g a b g' a' b'. quality_body ev j (g, a, b) = Inr (g', a', b') \<longrightarrow>
          g' = g + (if good_lepton ev j then 1 else 0))"
proof -
  have total: "arrays_cover ev 2 \<and> 0 \<notin> set (take 2 (lep_tracksigd0pvunbiased ev)) \<longrightarrow>
           (\<exists>r. quality_loop ev [0..<nat (lep_n ev)] (0, i1, i2) = Inr r)"
    using quality_loop_total [of ev "(0, i1, i2)"] assms
    by (simp add: upt_two del: quality_loop.simps)
  have count: "quality_loop ev [0..<nat (lep_n ev)] (0, i1, i2) = Inr (goodlep, i1', i2') \<longrightarrow>
         goodlep = int (length (filter (good_lepton ev) [0..<nat (lep_n ev)]))
         \<and> (goodlep = 2 \<longleftrightarrow> good_lepton ev 0 \<and> good_lepton ev 1)
         \<and> (goodlep \<noteq> 2 \<longrightarrow> signal_select infos samplesSig ev goodlep st = Inr st)"
  proof
    assume "quality_loop ev [0..<nat (lep_n ev)] (0, i1, i2) = Inr (goodlep, i1', i2')"
    with assms have "quality_loop ev [0, Suc 0] (0, i1, i2) = Inr (goodlep, i1', i2')"
      by (simp add: upt_two)
    from quality_loop_two [OF this] assms
    show "goodlep = int (length (filter (good_lepton ev) [0..<nat (lep_n ev)]))
         \<and> (goodlep = 2 \<longleftrightarrow> good_lepton ev 0 \<and> good_lepton ev 1)
         \<and> (goodlep \<noteq> 2 \<longrightarrow> signal_select infos samplesSig ev goodlep st = Inr st)"
      by (auto simp: upt_two signal_select_def)
  qed
  have once: "\<forall>j g a b g' a' b'. quality_body ev j (g, a, b) = Inr (g', a', b') \<longrightarrow>
          g' = g + (if good_lepton ev j then 1 else 0)"
    using quality_body_Inr by blast
  from total count once show ?thesis
    by blast
qed

theorem goodlep_counts_good_leptons_witness:
  "lep_n ev_mumu = 2
   \<and> arrays_cover ev_mumu 2 \<and> 0 \<notin> set (take 2 (lep_tracksigd0pvunbiased ev_mumu))
   \<and> quality_loop ev_mumu [0..<nat (lep_n ev_mumu)] (0, 0, 0) = Inr (2, 0, 1)
   \<and> int (length (filter (good_lepton ev_mumu) [0..<nat (lep_n ev_mumu)])) = 2
   \<and> good_lepton ev_mumu 0 \<and> good_lepton ev_mumu 1
   \<and> lep_n ev_ele = 2
   \<and> quality_loop ev_ele [0..<nat (lep_n ev_ele)] (0, 0, 0) = Inr (1, 1, 0)
   \<and> int (length (filter (good_lepton ev_ele) [0..<nat (lep_n ev_ele)])) = 1
   \<and> \<not> (good_lepton ev_ele 0 \<and> good_lepton ev_ele 1)
   \<and> signal_select infos0 samplesSig0 ev_ele 1 signal_init = Inr signal_init"
proof -
  have m: "quality_loop ev_mumu [0..<nat (lep_n ev_mumu)] (0, 0, 0) = Inr (2, 0, 1)"
    by (simp add: ev_gate upt_two del: quality_loop.simps) (simp only: ql_mumu)
  have e: "quality_loop ev_ele [0..<nat (lep_n ev_ele)] (0, 0, 0) = Inr (1, 1, 0)"
    by (simp add: ev_gate upt_two del: quality_loop.simps) (simp only: ql_ele)
  have c: "arrays_cover ev_mumu 2" "0 \<notin> set (take 2 (lep_tracksigd0pvunbiased ev_mumu))"
    by (simp_all add: arrays_cover_def ev_mumu_def)
  from goodlep_counts_good_leptons [OF ev_gate(2), of 0 0 2 0 1 infos0 samplesSig0 signal_init]
    goodlep_counts_good_leptons [OF ev_gate(5), of 0 0 1 1 0 infos0 samplesSig0 signal_init]
    m e c
  show ?thesis
    by (simp add: ev_gate)
qed


end
